theory Spec2Isabelle
  imports Main "HOL-Library.Sublist" "HOL-Library.Word"
begin

section \<open>Errors\<close>

text \<open>
  Go \<^verbatim>\<open>error\<close> values. \<open>Canceled\<close> and \<open>DeadlineExceeded\<close> are the two sentinel
  errors of package context; \<open>ErrMissingModel\<close>, \<open>InvalidArgumentError\<close> (Parameter,
  Message; its Value is left out) and \<open>UnsupportedFunctionalityError\<close> (Feature, Message)
  are the error values of package ai. \<open>ErrorString\<close> is an error made by
  \<^verbatim>\<open>errors.New\<close>, known by its text: it has no method but \<^verbatim>\<open>Error\<close>.

  \<open>GoError text accepts net unwraps\<close> is any other error value, given by what the
  standard library can ask of it:
  \<^item> \<open>text\<close> is what \<^verbatim>\<open>Error()\<close> returns;
  \<^item> \<open>accepts\<close> lists the targets to which its \<^verbatim>\<open>Is\<close> method answers true (empty
    when it has no such method);
  \<^item> \<open>net\<close> is \<open>Some (timeout, temporary)\<close> when \<^verbatim>\<open>errors.As\<close> finds a
    \<^verbatim>\<open>net.Error\<close> at this very error (it implements the interface, or its \<^verbatim>\<open>As\<close>
    method supplies one), with the answers of \<^verbatim>\<open>Timeout()\<close> and \<^verbatim>\<open>Temporary()\<close>;
  \<^item> \<open>unwraps\<close> is what \<^verbatim>\<open>Unwrap\<close> returns: nothing, one error, or several.

  So the timeout error of package net is
  \<open>GoError ''i/o timeout'' [DeadlineExceeded] (Some (True, True)) []\<close>, and
  \<^verbatim>\<open>fmt.Errorf("call: %w", err)\<close> is \<open>GoError ''call: ...'' [] None [err]\<close>.
\<close>

datatype error =
    Canceled
  | DeadlineExceeded
  | ErrMissingModel
  | InvalidArgumentError string string
  | UnsupportedFunctionalityError string string
  | ErrorString string
  | GoError string "error list" "(bool \<times> bool) option" "error list"

text \<open>
  \<^verbatim>\<open>errors.Is(err, target)\<close>: \<open>err\<close> is \<open>target\<close>, or its \<^verbatim>\<open>Is\<close> method accepts
  \<open>target\<close>, or the same holds of an error that \<^verbatim>\<open>Unwrap\<close> returns, searched depth
  first. The program only ever asks for the two sentinels of package context.
\<close>

fun errors_Is :: "error \<Rightarrow> error \<Rightarrow> bool" where
  "errors_Is (GoError t accepts net unwraps) target =
     (GoError t accepts net unwraps = target \<or> target \<in> set accepts \<or>
      (\<exists>c \<in> set unwraps. errors_Is c target))"
| "errors_Is e target = (e = target)"

text \<open>
  \<^verbatim>\<open>errors.As(err, &netErr)\<close> for a \<^verbatim>\<open>net.Error\<close> target: the first error of the tree,
  depth first, at which a \<^verbatim>\<open>net.Error\<close> is found, as its two answers.
  \<^verbatim>\<open>context.DeadlineExceeded\<close> implements \<^verbatim>\<open>net.Error\<close> itself, with both answers
  true.
\<close>

fun firstSome :: "'a option list \<Rightarrow> 'a option" where
  "firstSome [] = None"
| "firstSome (Some x # xs) = Some x"
| "firstSome (None # xs) = firstSome xs"

fun asNetError :: "error \<Rightarrow> (bool \<times> bool) option" where
  "asNetError (GoError t accepts net unwraps) =
     (case net of Some x \<Rightarrow> Some x | None \<Rightarrow> firstSome (map asNetError unwraps))"
| "asNetError DeadlineExceeded = Some (True, True)"
| "asNetError e = None"

section \<open>Package strings\<close>

text \<open>
  A Go string is a sequence of bytes; \<open>string\<close> is a list of 8-bit characters.
  \<^verbatim>\<open>strings.TrimSpace\<close> removes leading and trailing white space as Unicode defines it
  (\<^verbatim>\<open>unicode.IsSpace\<close>). \<open>spaceRunes\<close> lists the UTF-8 encodings of those code points:
  the six ASCII ones, U+0085, U+00A0, U+1680, U+2000 to U+200A, U+2028, U+2029, U+202F,
  U+205F and U+3000.
\<close>

definition spaceRunes :: "string list" where
  "spaceRunes =
    [[CHR 0x09], [CHR 0x0A], [CHR 0x0B], [CHR 0x0C], [CHR 0x0D], [CHR 0x20],
     [CHR 0xC2, CHR 0x85], [CHR 0xC2, CHR 0xA0],
     [CHR 0xE1, CHR 0x9A, CHR 0x80],
     [CHR 0xE2, CHR 0x80, CHR 0x80], [CHR 0xE2, CHR 0x80, CHR 0x81],
     [CHR 0xE2, CHR 0x80, CHR 0x82], [CHR 0xE2, CHR 0x80, CHR 0x83],
     [CHR 0xE2, CHR 0x80, CHR 0x84], [CHR 0xE2, CHR 0x80, CHR 0x85],
     [CHR 0xE2, CHR 0x80, CHR 0x86], [CHR 0xE2, CHR 0x80, CHR 0x87],
     [CHR 0xE2, CHR 0x80, CHR 0x88], [CHR 0xE2, CHR 0x80, CHR 0x89],
     [CHR 0xE2, CHR 0x80, CHR 0x8A],
     [CHR 0xE2, CHR 0x80, CHR 0xA8], [CHR 0xE2, CHR 0x80, CHR 0xA9],
     [CHR 0xE2, CHR 0x80, CHR 0xAF],
     [CHR 0xE2, CHR 0x81, CHR 0x9F],
     [CHR 0xE3, CHR 0x80, CHR 0x80]]"

text \<open>
  \<open>leading encs s\<close> is the number of bytes of the first member of \<open>encs\<close> that \<open>s\<close>
  starts with, and 0 when there is none.
\<close>

fun leading :: "string list \<Rightarrow> string \<Rightarrow> nat" where
  "leading [] s = 0"
| "leading (e # es) s = (if e \<noteq> [] \<and> prefix e s then length e else leading es s)"

function trimLeading :: "string list \<Rightarrow> string \<Rightarrow> string" where
  "trimLeading encs s =
     (if leading encs s = 0 \<or> s = [] then s else trimLeading encs (drop (leading encs s) s))"
  by pat_completeness auto
termination
  by (relation "measure (\<lambda>(encs, s). length s)") auto

definition TrimSpace :: "string \<Rightarrow> string" where
  "TrimSpace s = rev (trimLeading (map rev spaceRunes) (rev (trimLeading spaceRunes s)))"

definition HasPrefix :: "string \<Rightarrow> string \<Rightarrow> bool" where
  "HasPrefix s p = prefix p s"

definition TrimPrefix :: "string \<Rightarrow> string \<Rightarrow> string" where
  "TrimPrefix s p = (if HasPrefix s p then drop (length p) s else s)"

section \<open>Provider types\<close>

record ToolCall =
  ID :: string
  Name :: string
  RawArguments :: string

record LanguageModelDelta =
  Text :: string
  ToolCalls :: "ToolCall list"
  Done :: bool

text \<open>The value \<^verbatim>\<open>&provider.LanguageModelDelta{Done: true}\<close>.\<close>

definition doneDelta :: LanguageModelDelta where
  "doneDelta = \<lparr>Text = [], ToolCalls = [], Done = True\<rparr>"

section \<open>The line scanner and the context of a stream\<close>

text \<open>
  Both streams read their body through a \<^verbatim>\<open>bufio.Scanner\<close> splitting lines. The
  scanner is modelled by what it will still deliver: the lines \<open>tokens\<close>, one per
  successful \<^verbatim>\<open>Scan()\<close>, and then \<open>scanErr\<close>, what \<^verbatim>\<open>Err()\<close> returns once
  \<^verbatim>\<open>Scan()\<close> is false: \<open>None\<close> at a clean end of input, \<open>Some e\<close> for a read error
  (a transport failure, or a line over the buffer's limit). A scanner that has failed stays
  failed here; the library's scanner can still hand out, on a later \<^verbatim>\<open>Scan()\<close>, the
  bytes it had buffered when it met a line over the limit. No statement below is about a
  call made after a read error.

  The context handed to \<^verbatim>\<open>Next\<close> is modelled by what \<^verbatim>\<open>ctx.Err()\<close> answers at each
  evaluation during the call: \<open>ctx i\<close> is \<open>None\<close> while the context is live at the
  \<open>i\<close>-th evaluation (counted from 0), and \<open>Some e\<close> once it is cancelled.
\<close>

record Scanner =
  tokens :: "string list"
  scanErr :: "error option"

type_synonym Context = "nat \<Rightarrow> error option"

definition background :: Context where
  "background = (\<lambda>i. None)"

text \<open>
  What one line of the body is, as both \<^verbatim>\<open>Next\<close> functions read it: the line is
  trimmed; an empty line and a line that does not start with \<^verbatim>\<open>data:\<close> carry no
  payload; otherwise the payload is the trimmed rest.
\<close>

definition payload :: "string \<Rightarrow> string option" where
  "payload text =
     (let line = TrimSpace text in
      if line = [] then None
      else if \<not> HasPrefix line ''data:'' then None
      else Some (TrimSpace (TrimPrefix line ''data:'')))"

section \<open>The OpenAI chat stream\<close>

record openAIFunction =
  fn_Name :: string
  fn_Arguments :: string

record openAIToolCall =
  tc_ID :: string
  tc_Type :: string
  tc_Function :: openAIFunction

record openAIChunkDelta =
  delta_Content :: string
  delta_ToolCalls :: "openAIToolCall list"

record openAIChunkChoice =
  Delta :: openAIChunkDelta
  FinishReason :: string

record openAIChatStreamChunk =
  Choices :: "openAIChunkChoice list"

record chatStream =
  scanner :: Scanner
  done_flag :: bool

text \<open>The loop over \<^verbatim>\<open>choice.Delta.ToolCalls\<close>: only calls of type function are kept.\<close>

fun chatToolCalls :: "openAIToolCall list \<Rightarrow> ToolCall list" where
  "chatToolCalls [] = []"
| "chatToolCalls (tc # tcs) =
     (if tc_Type tc \<noteq> ''function'' then chatToolCalls tcs
      else \<lparr>ID = tc_ID tc, Name = fn_Name (tc_Function tc),
             RawArguments = fn_Arguments (tc_Function tc)\<rparr> # chatToolCalls tcs)"

text \<open>
  The \<^verbatim>\<open>for\<close> loop of \<^verbatim>\<open>chatStream.Next\<close>, by recursion on the lines the scanner
  still holds. \<open>unmarshal\<close> stands for \<^verbatim>\<open>json.Unmarshal\<close> into an
  \<^verbatim>\<open>openAIChatStreamChunk\<close>; \<open>i\<close> counts the evaluations of \<^verbatim>\<open>ctx.Err()\<close>. The
  result is what \<^verbatim>\<open>Next\<close> returns (\<open>Inl\<close> the error) and the stream afterwards.
\<close>

fun chatLoop ::
  "(string \<Rightarrow> error + openAIChatStreamChunk) \<Rightarrow> Context \<Rightarrow> nat \<Rightarrow> string list \<Rightarrow>
   error option \<Rightarrow> (error + LanguageModelDelta) \<times> chatStream" where
  "chatLoop unmarshal ctx i [] serr =
     (case ctx i of
        Some err \<Rightarrow> (Inl err, \<lparr>scanner = \<lparr>tokens = [], scanErr = serr\<rparr>, done_flag = False\<rparr>)
      | None \<Rightarrow>
         (case serr of
            Some err \<Rightarrow> (Inl err, \<lparr>scanner = \<lparr>tokens = [], scanErr = serr\<rparr>, done_flag = False\<rparr>)
          | None \<Rightarrow>
              (Inr doneDelta, \<lparr>scanner = \<lparr>tokens = [], scanErr = serr\<rparr>, done_flag = True\<rparr>)))"
| "chatLoop unmarshal ctx i (text # rest) serr =
     (case ctx i of
        Some err \<Rightarrow>
          (Inl err, \<lparr>scanner = \<lparr>tokens = text # rest, scanErr = serr\<rparr>, done_flag = False\<rparr>)
      | None \<Rightarrow>
         (case payload text of
            None \<Rightarrow> chatLoop unmarshal ctx (Suc i) rest serr
          | Some data \<Rightarrow>
              if data = ''[DONE]'' then
                (Inr doneDelta, \<lparr>scanner = \<lparr>tokens = rest, scanErr = serr\<rparr>, done_flag = True\<rparr>)
              else
                (case unmarshal data of
                   Inl err \<Rightarrow>
                     (Inl err, \<lparr>scanner = \<lparr>tokens = rest, scanErr = serr\<rparr>, done_flag = False\<rparr>)
                 | Inr chunk \<Rightarrow>
                     (case Choices chunk of
                        [] \<Rightarrow> chatLoop unmarshal ctx (Suc i) rest serr
                      | choice # _ \<Rightarrow>
                          let delta = \<lparr>Text = delta_Content (Delta choice),
                                       ToolCalls = chatToolCalls (delta_ToolCalls (Delta choice)),
                                       Done = False\<rparr>
                          in if FinishReason choice \<noteq> [] then
                               (Inr (delta\<lparr>Done := True\<rparr>),
                                \<lparr>scanner = \<lparr>tokens = rest, scanErr = serr\<rparr>, done_flag = True\<rparr>)
                             else
                               (Inr delta,
                                \<lparr>scanner = \<lparr>tokens = rest, scanErr = serr\<rparr>, done_flag = False\<rparr>)))))"

definition chatStream_Next ::
  "(string \<Rightarrow> error + openAIChatStreamChunk) \<Rightarrow> Context \<Rightarrow> chatStream \<Rightarrow>
   (error + LanguageModelDelta) \<times> chatStream" where
  "chatStream_Next unmarshal ctx s =
     (if done_flag s then (Inr doneDelta, s)
      else chatLoop unmarshal ctx 0 (tokens (scanner s)) (scanErr (scanner s)))"

section \<open>The Anthropic messages stream\<close>

record anthropicDelta =
  ad_Type :: string
  ad_Text :: string

text \<open>\<open>ev_Delta\<close> is a pointer in the source: \<open>None\<close> is nil.\<close>

record anthropicStreamEvent =
  ev_Type :: string
  ev_Delta :: "anthropicDelta option"

record messagesStream =
  m_scanner :: Scanner
  m_done :: bool

text \<open>
  The \<^verbatim>\<open>for\<close> loop of \<^verbatim>\<open>messagesStream.Next\<close>; \<open>unmarshal\<close> stands for
  \<^verbatim>\<open>json.Unmarshal\<close> into an \<^verbatim>\<open>anthropicStreamEvent\<close>. An event that is neither a
  non-empty text delta nor \<^verbatim>\<open>message_stop\<close> falls out of the \<^verbatim>\<open>switch\<close> and the loop
  goes on.
\<close>

fun messagesLoop ::
  "(string \<Rightarrow> error + anthropicStreamEvent) \<Rightarrow> Context \<Rightarrow> nat \<Rightarrow> string list \<Rightarrow>
   error option \<Rightarrow> (error + LanguageModelDelta) \<times> messagesStream" where
  "messagesLoop unmarshal ctx i [] serr =
     (case ctx i of
        Some err \<Rightarrow> (Inl err, \<lparr>m_scanner = \<lparr>tokens = [], scanErr = serr\<rparr>, m_done = False\<rparr>)
      | None \<Rightarrow>
         (case serr of
            Some err \<Rightarrow> (Inl err, \<lparr>m_scanner = \<lparr>tokens = [], scanErr = serr\<rparr>, m_done = False\<rparr>)
          | None \<Rightarrow>
              (Inr doneDelta, \<lparr>m_scanner = \<lparr>tokens = [], scanErr = serr\<rparr>, m_done = True\<rparr>)))"
| "messagesLoop unmarshal ctx i (text # rest) serr =
     (case ctx i of
        Some err \<Rightarrow>
          (Inl err, \<lparr>m_scanner = \<lparr>tokens = text # rest, scanErr = serr\<rparr>, m_done = False\<rparr>)
      | None \<Rightarrow>
         (case payload text of
            None \<Rightarrow> messagesLoop unmarshal ctx (Suc i) rest serr
          | Some data \<Rightarrow>
              if data = ''[DONE]'' then
                (Inr doneDelta, \<lparr>m_scanner = \<lparr>tokens = rest, scanErr = serr\<rparr>, m_done = True\<rparr>)
              else
                (case unmarshal data of
                   Inl err \<Rightarrow>
                     (Inl err, \<lparr>m_scanner = \<lparr>tokens = rest, scanErr = serr\<rparr>, m_done = False\<rparr>)
                 | Inr ev \<Rightarrow>
                     if ev_Type ev = ''content_block_delta'' then
                       (case ev_Delta ev of
                          None \<Rightarrow> messagesLoop unmarshal ctx (Suc i) rest serr
                        | Some d \<Rightarrow>
                            if ad_Type d = ''text_delta'' \<and> ad_Text d \<noteq> [] then
                              (Inr \<lparr>Text = ad_Text d, ToolCalls = [], Done = False\<rparr>,
                               \<lparr>m_scanner = \<lparr>tokens = rest, scanErr = serr\<rparr>, m_done = False\<rparr>)
                            else messagesLoop unmarshal ctx (Suc i) rest serr)
                     else if ev_Type ev = ''message_stop'' then
                       (Inr doneDelta,
                        \<lparr>m_scanner = \<lparr>tokens = rest, scanErr = serr\<rparr>, m_done = True\<rparr>)
                     else messagesLoop unmarshal ctx (Suc i) rest serr)))"

definition messagesStream_Next ::
  "(string \<Rightarrow> error + anthropicStreamEvent) \<Rightarrow> Context \<Rightarrow> messagesStream \<Rightarrow>
   (error + LanguageModelDelta) \<times> messagesStream" where
  "messagesStream_Next unmarshal ctx s =
     (if m_done s then (Inr doneDelta, s)
      else messagesLoop unmarshal ctx 0 (tokens (m_scanner s)) (scanErr (m_scanner s)))"

text \<open>
  A caller that calls an operation once per context of a list, each call on the state the
  call before left: the results in order, and the last state.
\<close>

fun calls :: "('c \<Rightarrow> 's \<Rightarrow> 'r \<times> 's) \<Rightarrow> 'c list \<Rightarrow> 's \<Rightarrow> 'r list \<times> 's" where
  "calls f [] s = ([], s)"
| "calls f (c # cs) s =
     (case f c s of (r, s') \<Rightarrow> (case calls f cs s' of (rs, s'') \<Rightarrow> (r # rs, s'')))"

text \<open>
  The lines a call of \<^verbatim>\<open>Next\<close> passes over without returning: a line with no payload
  and, in the chat stream, a chunk without choices; in the messages stream, an event that
  is neither a non-empty text delta nor \<^verbatim>\<open>message_stop\<close>.
\<close>

definition chatSkips :: "(string \<Rightarrow> error + openAIChatStreamChunk) \<Rightarrow> string \<Rightarrow> bool" where
  "chatSkips unmarshal text =
     (case payload text of
        None \<Rightarrow> True
      | Some data \<Rightarrow>
          data \<noteq> ''[DONE]'' \<and>
          (case unmarshal data of Inl err \<Rightarrow> False | Inr chunk \<Rightarrow> Choices chunk = []))"

definition messagesSkips :: "(string \<Rightarrow> error + anthropicStreamEvent) \<Rightarrow> string \<Rightarrow> bool" where
  "messagesSkips unmarshal text =
     (case payload text of
        None \<Rightarrow> True
      | Some data \<Rightarrow>
          data \<noteq> ''[DONE]'' \<and>
          (case unmarshal data of
             Inl err \<Rightarrow> False
           | Inr ev \<Rightarrow>
               if ev_Type ev = ''content_block_delta'' then
                 (case ev_Delta ev of
                    None \<Rightarrow> True
                  | Some d \<Rightarrow> \<not> (ad_Type d = ''text_delta'' \<and> ad_Text d \<noteq> []))
               else ev_Type ev \<noteq> ''message_stop''))"

section \<open>Properties of the streams\<close>

subsection \<open>Example inputs\<close>

text \<open>
  Two decoders for concrete runs: each decodes \<^verbatim>\<open>{}\<close> (a chunk without choices, an
  event of a type the stream ignores) and rejects every other payload.
\<close>


definition exampleChatDecoder :: "string \<Rightarrow> error + openAIChatStreamChunk" where
  "exampleChatDecoder data =
     (if data = ''{}'' then Inr \<lparr>Choices = []\<rparr>
      else Inl (ErrorString ''unexpected end of JSON input''))"

definition exampleEventDecoder :: "string \<Rightarrow> error + anthropicStreamEvent" where
  "exampleEventDecoder data =
     (if data = ''{}'' then Inr \<lparr>ev_Type = ''ping'', ev_Delta = None\<rparr>
      else Inl (ErrorString ''unexpected end of JSON input''))"

lemma payload_examples:
  "payload [] = None"
  "payload ''event: ping'' = None"
  "payload ''data: {}'' = Some ''{}''"
  "payload ''data: {oops'' = Some ''{oops''"
  "payload ''data: [DONE]'' = Some ''[DONE]''"
  by code_simp+

subsection \<open>Lines that are passed over\<close>

lemma chatLoop_skip:
  "\<forall>t \<in> set pre. chatSkips um t \<Longrightarrow> \<forall>j < length pre. ctx (i + j) = None \<Longrightarrow>
   chatLoop um ctx i (pre @ rest) serr = chatLoop um ctx (i + length pre) rest serr"
proof (induction pre arbitrary: i)
  case Nil then show ?case by simp
next
  case (Cons t pre)
  have c0: "ctx i = None" using Cons.prems(2)[rule_format, of 0] by simp
  have sk: "chatSkips um t" using Cons.prems(1) by simp
  have step: "chatLoop um ctx i (t # pre @ rest) serr = chatLoop um ctx (Suc i) (pre @ rest) serr"
    using c0 sk by (auto simp: chatSkips_def split: option.splits sum.splits list.splits)
  have "\<forall>j < length pre. ctx (Suc i + j) = None"
    using Cons.prems(2) by (metis add_Suc_right add_Suc length_Cons Suc_less_eq)
  with Cons.IH[of "Suc i"] Cons.prems(1) step show ?case by simp
qed

lemma messagesLoop_skip:
  "\<forall>t \<in> set pre. messagesSkips um t \<Longrightarrow> \<forall>j < length pre. ctx (i + j) = None \<Longrightarrow>
   messagesLoop um ctx i (pre @ rest) serr = messagesLoop um ctx (i + length pre) rest serr"
proof (induction pre arbitrary: i)
  case Nil then show ?case by simp
next
  case (Cons t pre)
  have c0: "ctx i = None" using Cons.prems(2)[rule_format, of 0] by simp
  have sk: "messagesSkips um t" using Cons.prems(1) by simp
  have step: "messagesLoop um ctx i (t # pre @ rest) serr = messagesLoop um ctx (Suc i) (pre @ rest) serr"
    using c0 sk by (auto simp: messagesSkips_def split: option.splits sum.splits if_splits)
  have "\<forall>j < length pre. ctx (Suc i + j) = None"
    using Cons.prems(2) by (metis add_Suc_right add_Suc length_Cons Suc_less_eq)
  with Cons.IH[of "Suc i"] Cons.prems(1) step show ?case by simp
qed

lemma no_payload_chatSkips: "payload t = None \<Longrightarrow> chatSkips um t"
  by (simp add: chatSkips_def)

lemma no_payload_messagesSkips: "payload t = None \<Longrightarrow> messagesSkips um t"
  by (simp add: messagesSkips_def)

lemma calls_chat_done:
  "done_flag s \<Longrightarrow> calls (chatStream_Next um) ctxs s = (replicate (length ctxs) (Inr doneDelta), s)"
  by (induction ctxs) (simp_all add: chatStream_Next_def)

lemma calls_messages_done:
  "m_done s \<Longrightarrow> calls (messagesStream_Next um) ctxs s = (replicate (length ctxs) (Inr doneDelta), s)"
  by (induction ctxs) (simp_all add: messagesStream_Next_def)

subsection \<open>The sentinel, the end of input and malformed payloads\<close>

text \<open>
  C1. Let the first line with a payload that the stream still holds carry the payload
  \<^verbatim>\<open>[DONE]\<close> (the lines before it are blank or not \<^verbatim>\<open>data:\<close> lines), and let the
  context be live at each evaluation of \<^verbatim>\<open>ctx.Err()\<close> up to that line. Then \<^verbatim>\<open>Next\<close>
  returns the Delta with \<open>Done = True\<close> and no error, and leaves the stream marked done.
  Every later call, under any context (a cancelled one too), returns that same Delta with
  no error and leaves the stream as it is: the scanner is not read again. This holds of
  \<^verbatim>\<open>chatStream.Next\<close> and of \<^verbatim>\<open>messagesStream.Next\<close>.
\<close>

theorem done_sentinel_is_terminal:
  "(\<not> done_flag s \<and> tokens (scanner s) = pre @ text # rest \<and>
    (\<forall>t \<in> set pre. payload t = None) \<and> payload text = Some ''[DONE]'' \<and>
    (\<forall>j \<le> length pre. ctx j = None)
    \<longrightarrow> (let s' = \<lparr>scanner = \<lparr>tokens = rest, scanErr = scanErr (scanner s)\<rparr>,
                       done_flag = True\<rparr>
         in chatStream_Next umc ctx s = (Inr doneDelta, s') \<and> Done doneDelta \<and>
            (\<forall>ctxs. calls (chatStream_Next umc) ctxs s' =
                      (replicate (length ctxs) (Inr doneDelta), s'))))
   \<and>
   (\<not> m_done m \<and> tokens (m_scanner m) = pre' @ text' # rest' \<and>
    (\<forall>t \<in> set pre'. payload t = None) \<and> payload text' = Some ''[DONE]'' \<and>
    (\<forall>j \<le> length pre'. ctx' j = None)
    \<longrightarrow> (let m' = \<lparr>m_scanner = \<lparr>tokens = rest', scanErr = scanErr (m_scanner m)\<rparr>,
                       m_done = True\<rparr>
         in messagesStream_Next uma ctx' m = (Inr doneDelta, m') \<and> Done doneDelta \<and>
            (\<forall>ctxs. calls (messagesStream_Next uma) ctxs m' =
                      (replicate (length ctxs) (Inr doneDelta), m'))))"
proof (intro conjI impI)
  assume a: "\<not> done_flag s \<and> tokens (scanner s) = pre @ text # rest \<and>
    (\<forall>t \<in> set pre. payload t = None) \<and> payload text = Some ''[DONE]'' \<and>
    (\<forall>j \<le> length pre. ctx j = None)"
  then have live: "\<forall>j < length pre. ctx (0 + j) = None" and here: "ctx (length pre) = None"
    by simp_all
  from a have skips: "\<forall>t \<in> set pre. chatSkips umc t"
    by (simp add: no_payload_chatSkips)
  have "chatLoop umc ctx 0 (pre @ text # rest) (scanErr (scanner s)) =
        chatLoop umc ctx (0 + length pre) (text # rest) (scanErr (scanner s))"
    by (rule chatLoop_skip[OF skips live])
  with a here have first: "chatStream_Next umc ctx s =
      (Inr doneDelta, \<lparr>scanner = \<lparr>tokens = rest, scanErr = scanErr (scanner s)\<rparr>,
                        done_flag = True\<rparr>)"
    by (simp add: chatStream_Next_def)
  show "let s' = \<lparr>scanner = \<lparr>tokens = rest, scanErr = scanErr (scanner s)\<rparr>,
                   done_flag = True\<rparr>
        in chatStream_Next umc ctx s = (Inr doneDelta, s') \<and> Done doneDelta \<and>
           (\<forall>ctxs. calls (chatStream_Next umc) ctxs s' =
                     (replicate (length ctxs) (Inr doneDelta), s'))"
    using first by (simp add: calls_chat_done doneDelta_def)
next
  assume a: "\<not> m_done m \<and> tokens (m_scanner m) = pre' @ text' # rest' \<and>
    (\<forall>t \<in> set pre'. payload t = None) \<and> payload text' = Some ''[DONE]'' \<and>
    (\<forall>j \<le> length pre'. ctx' j = None)"
  then have live: "\<forall>j < length pre'. ctx' (0 + j) = None" and here: "ctx' (length pre') = None"
    by simp_all
  from a have skips: "\<forall>t \<in> set pre'. messagesSkips uma t"
    by (simp add: no_payload_messagesSkips)
  have "messagesLoop uma ctx' 0 (pre' @ text' # rest') (scanErr (m_scanner m)) =
        messagesLoop uma ctx' (0 + length pre') (text' # rest') (scanErr (m_scanner m))"
    by (rule messagesLoop_skip[OF skips live])
  with a here have first: "messagesStream_Next uma ctx' m =
      (Inr doneDelta, \<lparr>m_scanner = \<lparr>tokens = rest', scanErr = scanErr (m_scanner m)\<rparr>,
                        m_done = True\<rparr>)"
    by (simp add: messagesStream_Next_def)
  show "let m' = \<lparr>m_scanner = \<lparr>tokens = rest', scanErr = scanErr (m_scanner m)\<rparr>,
                   m_done = True\<rparr>
        in messagesStream_Next uma ctx' m = (Inr doneDelta, m') \<and> Done doneDelta \<and>
           (\<forall>ctxs. calls (messagesStream_Next uma) ctxs m' =
                     (replicate (length ctxs) (Inr doneDelta), m'))"
    using first by (simp add: calls_messages_done doneDelta_def)
qed

theorem done_sentinel_is_terminal_witness:
  "chatStream_Next exampleChatDecoder background
     \<lparr>scanner = \<lparr>tokens = [[], ''event: ping'', ''data: [DONE]'', ''data: {}''],
                  scanErr = None\<rparr>, done_flag = False\<rparr>
   = (Inr doneDelta, \<lparr>scanner = \<lparr>tokens = [''data: {}''], scanErr = None\<rparr>, done_flag = True\<rparr>)
   \<and>
   calls (chatStream_Next exampleChatDecoder) [background, (\<lambda>i. Some Canceled)]
     \<lparr>scanner = \<lparr>tokens = [''data: {}''], scanErr = None\<rparr>, done_flag = True\<rparr>
   = ([Inr doneDelta, Inr doneDelta],
      \<lparr>scanner = \<lparr>tokens = [''data: {}''], scanErr = None\<rparr>, done_flag = True\<rparr>)
   \<and>
   messagesStream_Next exampleEventDecoder background
     \<lparr>m_scanner = \<lparr>tokens = [[], ''event: ping'', ''data: [DONE]'', ''data: {}''],
                    scanErr = None\<rparr>, m_done = False\<rparr>
   = (Inr doneDelta, \<lparr>m_scanner = \<lparr>tokens = [''data: {}''], scanErr = None\<rparr>, m_done = True\<rparr>)
   \<and>
   calls (messagesStream_Next exampleEventDecoder) [background, (\<lambda>i. Some Canceled)]
     \<lparr>m_scanner = \<lparr>tokens = [''data: {}''], scanErr = None\<rparr>, m_done = True\<rparr>
   = ([Inr doneDelta, Inr doneDelta],
      \<lparr>m_scanner = \<lparr>tokens = [''data: {}''], scanErr = None\<rparr>, m_done = True\<rparr>)"
proof -
  note inst = done_sentinel_is_terminal
    [of "\<lparr>scanner = \<lparr>tokens = [[], ''event: ping'', ''data: [DONE]'', ''data: {}''],
                      scanErr = None\<rparr>, done_flag = False\<rparr>"
        "[[], ''event: ping'']" "''data: [DONE]''" "[''data: {}'']" background
        exampleChatDecoder
        "\<lparr>m_scanner = \<lparr>tokens = [[], ''event: ping'', ''data: [DONE]'', ''data: {}''],
                        scanErr = None\<rparr>, m_done = False\<rparr>"
        "[[], ''event: ping'']" "''data: [DONE]''" "[''data: {}'']" background
        exampleEventDecoder]
  have c: "chatStream_Next exampleChatDecoder background
       \<lparr>scanner = \<lparr>tokens = [[], ''event: ping'', ''data: [DONE]'', ''data: {}''],
                    scanErr = None\<rparr>, done_flag = False\<rparr>
     = (Inr doneDelta, \<lparr>scanner = \<lparr>tokens = [''data: {}''], scanErr = None\<rparr>, done_flag = True\<rparr>)
     \<and> (\<forall>ctxs. calls (chatStream_Next exampleChatDecoder) ctxs
           \<lparr>scanner = \<lparr>tokens = [''data: {}''], scanErr = None\<rparr>, done_flag = True\<rparr>
        = (replicate (length ctxs) (Inr doneDelta),
           \<lparr>scanner = \<lparr>tokens = [''data: {}''], scanErr = None\<rparr>, done_flag = True\<rparr>))"
    using inst by (simp add: payload_examples background_def Let_def)
  have m: "messagesStream_Next exampleEventDecoder background
       \<lparr>m_scanner = \<lparr>tokens = [[], ''event: ping'', ''data: [DONE]'', ''data: {}''],
                      scanErr = None\<rparr>, m_done = False\<rparr>
     = (Inr doneDelta, \<lparr>m_scanner = \<lparr>tokens = [''data: {}''], scanErr = None\<rparr>, m_done = True\<rparr>)
     \<and> (\<forall>ctxs. calls (messagesStream_Next exampleEventDecoder) ctxs
           \<lparr>m_scanner = \<lparr>tokens = [''data: {}''], scanErr = None\<rparr>, m_done = True\<rparr>
        = (replicate (length ctxs) (Inr doneDelta),
           \<lparr>m_scanner = \<lparr>tokens = [''data: {}''], scanErr = None\<rparr>, m_done = True\<rparr>))"
    using inst by (simp add: payload_examples background_def Let_def)
  from c have c2: "calls (chatStream_Next exampleChatDecoder) [background, (\<lambda>i. Some Canceled)]
       \<lparr>scanner = \<lparr>tokens = [''data: {}''], scanErr = None\<rparr>, done_flag = True\<rparr>
     = (replicate (length [background, (\<lambda>i. Some Canceled)]) (Inr doneDelta),
        \<lparr>scanner = \<lparr>tokens = [''data: {}''], scanErr = None\<rparr>, done_flag = True\<rparr>)"
    by blast
  from m have m2: "calls (messagesStream_Next exampleEventDecoder) [background, (\<lambda>i. Some Canceled)]
       \<lparr>m_scanner = \<lparr>tokens = [''data: {}''], scanErr = None\<rparr>, m_done = True\<rparr>
     = (replicate (length [background, (\<lambda>i. Some Canceled)]) (Inr doneDelta),
        \<lparr>m_scanner = \<lparr>tokens = [''data: {}''], scanErr = None\<rparr>, m_done = True\<rparr>)"
    by blast
  have r: "replicate (length [background, (\<lambda>i. Some Canceled)]) (Inr doneDelta :: error + LanguageModelDelta)
        = [Inr doneDelta, Inr doneDelta]" by simp
  from c c2 m m2 show ?thesis unfolding r by blast
qed

text \<open>
  C7. Let every line the stream still holds be one that \<^verbatim>\<open>Next\<close> passes over (so no
  sentinel, no end-of-turn event and no Delta is met before the end), let the scanner end
  without a read error, and let the context be live at each evaluation of \<^verbatim>\<open>ctx.Err()\<close>.
  Then \<^verbatim>\<open>Next\<close> returns the Delta with \<open>Done = True\<close> and no error, the stream is marked
  done, and every later call returns the same Delta. \<^verbatim>\<open>Next\<close> is a total function of
  the lines left, so the call returns. This holds of both streams.
\<close>

theorem end_of_input_is_done:
  "(\<not> done_flag s \<and> (\<forall>t \<in> set (tokens (scanner s)). chatSkips umc t) \<and>
    scanErr (scanner s) = None \<and> (\<forall>j \<le> length (tokens (scanner s)). ctx j = None)
    \<longrightarrow> (let s' = \<lparr>scanner = \<lparr>tokens = [], scanErr = None\<rparr>, done_flag = True\<rparr>
         in chatStream_Next umc ctx s = (Inr doneDelta, s') \<and> Done doneDelta \<and>
            (\<forall>ctxs. calls (chatStream_Next umc) ctxs s' =
                      (replicate (length ctxs) (Inr doneDelta), s'))))
   \<and>
   (\<not> m_done m \<and> (\<forall>t \<in> set (tokens (m_scanner m)). messagesSkips uma t) \<and>
    scanErr (m_scanner m) = None \<and> (\<forall>j \<le> length (tokens (m_scanner m)). ctx' j = None)
    \<longrightarrow> (let m' = \<lparr>m_scanner = \<lparr>tokens = [], scanErr = None\<rparr>, m_done = True\<rparr>
         in messagesStream_Next uma ctx' m = (Inr doneDelta, m') \<and> Done doneDelta \<and>
            (\<forall>ctxs. calls (messagesStream_Next uma) ctxs m' =
                      (replicate (length ctxs) (Inr doneDelta), m'))))"
proof (intro conjI impI)
  assume a: "\<not> done_flag s \<and> (\<forall>t \<in> set (tokens (scanner s)). chatSkips umc t) \<and>
    scanErr (scanner s) = None \<and> (\<forall>j \<le> length (tokens (scanner s)). ctx j = None)"
  then have live: "\<forall>j < length (tokens (scanner s)). ctx (0 + j) = None"
    and here: "ctx (length (tokens (scanner s))) = None"
    and skips: "\<forall>t \<in> set (tokens (scanner s)). chatSkips umc t"
    by simp_all
  have "chatLoop umc ctx 0 (tokens (scanner s) @ []) None =
        chatLoop umc ctx (0 + length (tokens (scanner s))) [] None"
    by (rule chatLoop_skip[OF skips live])
  with a here have first: "chatStream_Next umc ctx s =
      (Inr doneDelta, \<lparr>scanner = \<lparr>tokens = [], scanErr = None\<rparr>, done_flag = True\<rparr>)"
    by (simp add: chatStream_Next_def)
  show "let s' = \<lparr>scanner = \<lparr>tokens = [], scanErr = None\<rparr>, done_flag = True\<rparr>
        in chatStream_Next umc ctx s = (Inr doneDelta, s') \<and> Done doneDelta \<and>
           (\<forall>ctxs. calls (chatStream_Next umc) ctxs s' =
                     (replicate (length ctxs) (Inr doneDelta), s'))"
    using first by (simp add: calls_chat_done doneDelta_def)
next
  assume a: "\<not> m_done m \<and> (\<forall>t \<in> set (tokens (m_scanner m)). messagesSkips uma t) \<and>
    scanErr (m_scanner m) = None \<and> (\<forall>j \<le> length (tokens (m_scanner m)). ctx' j = None)"
  then have live: "\<forall>j < length (tokens (m_scanner m)). ctx' (0 + j) = None"
    and here: "ctx' (length (tokens (m_scanner m))) = None"
    and skips: "\<forall>t \<in> set (tokens (m_scanner m)). messagesSkips uma t"
    by simp_all
  have "messagesLoop uma ctx' 0 (tokens (m_scanner m) @ []) None =
        messagesLoop uma ctx' (0 + length (tokens (m_scanner m))) [] None"
    by (rule messagesLoop_skip[OF skips live])
  with a here have first: "messagesStream_Next uma ctx' m =
      (Inr doneDelta, \<lparr>m_scanner = \<lparr>tokens = [], scanErr = None\<rparr>, m_done = True\<rparr>)"
    by (simp add: messagesStream_Next_def)
  show "let m' = \<lparr>m_scanner = \<lparr>tokens = [], scanErr = None\<rparr>, m_done = True\<rparr>
        in messagesStream_Next uma ctx' m = (Inr doneDelta, m') \<and> Done doneDelta \<and>
           (\<forall>ctxs. calls (messagesStream_Next uma) ctxs m' =
                     (replicate (length ctxs) (Inr doneDelta), m'))"
    using first by (simp add: calls_messages_done doneDelta_def)
qed

theorem end_of_input_is_done_witness:
  "chatStream_Next exampleChatDecoder background
     \<lparr>scanner = \<lparr>tokens = [[], ''event: ping'', ''data: {}''], scanErr = None\<rparr>,
      done_flag = False\<rparr>
   = (Inr doneDelta, \<lparr>scanner = \<lparr>tokens = [], scanErr = None\<rparr>, done_flag = True\<rparr>)
   \<and>
   messagesStream_Next exampleEventDecoder background
     \<lparr>m_scanner = \<lparr>tokens = [[], ''event: ping'', ''data: {}''], scanErr = None\<rparr>,
      m_done = False\<rparr>
   = (Inr doneDelta, \<lparr>m_scanner = \<lparr>tokens = [], scanErr = None\<rparr>, m_done = True\<rparr>)"
  using end_of_input_is_done
    [of "\<lparr>scanner = \<lparr>tokens = [[], ''event: ping'', ''data: {}''], scanErr = None\<rparr>,
          done_flag = False\<rparr>" exampleChatDecoder background
        "\<lparr>m_scanner = \<lparr>tokens = [[], ''event: ping'', ''data: {}''], scanErr = None\<rparr>,
          m_done = False\<rparr>" exampleEventDecoder background]
  by (simp add: payload_examples chatSkips_def messagesSkips_def exampleChatDecoder_def
        exampleEventDecoder_def background_def Let_def)

text \<open>
  C8. When a call of \<^verbatim>\<open>Next\<close> comes to a \<^verbatim>\<open>data:\<close> line whose payload is not
  \<^verbatim>\<open>[DONE]\<close> and fails to decode (the lines before it in this call were passed over
  and the context was live when each was read), the call returns the decoder's error and
  no Delta. The scanner has consumed the lines up to and including the malformed one and
  nothing after it, and the stream is not marked done. This holds of both streams.
\<close>

theorem malformed_payload_is_fatal:
  "(\<not> done_flag s \<and> tokens (scanner s) = pre @ text # rest \<and>
    (\<forall>t \<in> set pre. chatSkips umc t) \<and> (\<forall>j \<le> length pre. ctx j = None) \<and>
    payload text = Some data \<and> data \<noteq> ''[DONE]'' \<and> umc data = Inl err
    \<longrightarrow> chatStream_Next umc ctx s =
          (Inl err, \<lparr>scanner = \<lparr>tokens = rest, scanErr = scanErr (scanner s)\<rparr>,
                     done_flag = False\<rparr>))
   \<and>
   (\<not> m_done m \<and> tokens (m_scanner m) = pre' @ text' # rest' \<and>
    (\<forall>t \<in> set pre'. messagesSkips uma t) \<and> (\<forall>j \<le> length pre'. ctx' j = None) \<and>
    payload text' = Some data' \<and> data' \<noteq> ''[DONE]'' \<and> uma data' = Inl err'
    \<longrightarrow> messagesStream_Next uma ctx' m =
          (Inl err', \<lparr>m_scanner = \<lparr>tokens = rest', scanErr = scanErr (m_scanner m)\<rparr>,
                      m_done = False\<rparr>))"
proof (intro conjI impI)
  assume a: "\<not> done_flag s \<and> tokens (scanner s) = pre @ text # rest \<and>
    (\<forall>t \<in> set pre. chatSkips umc t) \<and> (\<forall>j \<le> length pre. ctx j = None) \<and>
    payload text = Some data \<and> data \<noteq> ''[DONE]'' \<and> umc data = Inl err"
  then have live: "\<forall>j < length pre. ctx (0 + j) = None" and here: "ctx (length pre) = None"
    by simp_all
  from a have "chatLoop umc ctx 0 (pre @ text # rest) (scanErr (scanner s)) =
               chatLoop umc ctx (0 + length pre) (text # rest) (scanErr (scanner s))"
    using chatLoop_skip[OF _ live] by blast
  with a here show "chatStream_Next umc ctx s =
          (Inl err, \<lparr>scanner = \<lparr>tokens = rest, scanErr = scanErr (scanner s)\<rparr>,
                     done_flag = False\<rparr>)"
    by (simp add: chatStream_Next_def)
next
  assume a: "\<not> m_done m \<and> tokens (m_scanner m) = pre' @ text' # rest' \<and>
    (\<forall>t \<in> set pre'. messagesSkips uma t) \<and> (\<forall>j \<le> length pre'. ctx' j = None) \<and>
    payload text' = Some data' \<and> data' \<noteq> ''[DONE]'' \<and> uma data' = Inl err'"
  then have live: "\<forall>j < length pre'. ctx' (0 + j) = None" and here: "ctx' (length pre') = None"
    by simp_all
  from a have "messagesLoop uma ctx' 0 (pre' @ text' # rest') (scanErr (m_scanner m)) =
               messagesLoop uma ctx' (0 + length pre') (text' # rest') (scanErr (m_scanner m))"
    using messagesLoop_skip[OF _ live] by blast
  with a here show "messagesStream_Next uma ctx' m =
          (Inl err', \<lparr>m_scanner = \<lparr>tokens = rest', scanErr = scanErr (m_scanner m)\<rparr>,
                      m_done = False\<rparr>)"
    by (simp add: messagesStream_Next_def)
qed

theorem malformed_payload_is_fatal_witness:
  "chatStream_Next exampleChatDecoder background
     \<lparr>scanner = \<lparr>tokens = [[], ''event: ping'', ''data: {}'', ''data: {oops'', ''data: [DONE]''],
                  scanErr = None\<rparr>, done_flag = False\<rparr>
   = (Inl (ErrorString ''unexpected end of JSON input''),
      \<lparr>scanner = \<lparr>tokens = [''data: [DONE]''], scanErr = None\<rparr>, done_flag = False\<rparr>)
   \<and>
   messagesStream_Next exampleEventDecoder background
     \<lparr>m_scanner = \<lparr>tokens = [[], ''event: ping'', ''data: {}'', ''data: {oops'', ''data: [DONE]''],
                    scanErr = None\<rparr>, m_done = False\<rparr>
   = (Inl (ErrorString ''unexpected end of JSON input''),
      \<lparr>m_scanner = \<lparr>tokens = [''data: [DONE]''], scanErr = None\<rparr>, m_done = False\<rparr>)"
  using malformed_payload_is_fatal
    [of "\<lparr>scanner = \<lparr>tokens = [[], ''event: ping'', ''data: {}'', ''data: {oops'', ''data: [DONE]''],
                      scanErr = None\<rparr>, done_flag = False\<rparr>"
        "[[], ''event: ping'', ''data: {}'']" "''data: {oops''" "[''data: [DONE]'']"
        exampleChatDecoder background "''{oops''" "ErrorString ''unexpected end of JSON input''"
        "\<lparr>m_scanner = \<lparr>tokens = [[], ''event: ping'', ''data: {}'', ''data: {oops'', ''data: [DONE]''],
                        scanErr = None\<rparr>, m_done = False\<rparr>"
        "[[], ''event: ping'', ''data: {}'']" "''data: {oops''" "[''data: [DONE]'']"
        exampleEventDecoder background "''{oops''" "ErrorString ''unexpected end of JSON input''"]
  by (simp add: payload_examples chatSkips_def messagesSkips_def exampleChatDecoder_def
        exampleEventDecoder_def background_def)

section \<open>Provider requests and responses\<close>

text \<open>
  A \<^verbatim>\<open>*float64\<close> is only ever copied: the value is kept as its 64 bits.
  \<^verbatim>\<open>time.Duration\<close> is an \<^verbatim>\<open>int64\<close> of nanoseconds.
\<close>

type_synonym float64 = "64 word"

type_synonym Duration = "64 word"

record Message =
  Role :: string
  Content :: string

record ToolDefinition =
  def_Name :: string
  def_Description :: string
  def_Parameters :: string

record LanguageModelRequest =
  lm_Model :: string
  lm_Messages :: "Message list"
  lm_Temperature :: "float64 option"
  lm_TopP :: "float64 option"
  lm_MaxTokens :: "int option"
  lm_Stop :: "string list"
  lm_JSONSchema :: string
  lm_Tools :: "ToolDefinition list"

record LanguageModelResponse =
  resp_Text :: string
  resp_StopReason :: string
  resp_ToolCalls :: "ToolCall list"

text \<open>
  A \<^verbatim>\<open>provider.LanguageModel\<close>, by its \<^verbatim>\<open>Generate\<close> method. \<open>'w\<close> is the state of
  everything the call can touch or depend on: the provider, the network, the clock. The
  request is handed on as a value; the callee does not write to it.
\<close>

type_synonym 'w LanguageModel =
  "LanguageModelRequest \<Rightarrow> 'w \<Rightarrow> (error + LanguageModelResponse) \<times> 'w"

section \<open>The retry middleware\<close>

text \<open>
  The \<^verbatim>\<open>select\<close> of \<^verbatim>\<open>sleepWithContext\<close> waits for the context or for a timer of
  duration \<open>d\<close>. What happens is decided outside the program, so a context is given here
  by that wait: \<open>sel d w\<close> is \<open>Some (ctx.Err())\<close> when \<^verbatim>\<open>ctx.Done()\<close> is the case
  taken, \<open>None\<close> when the timer's is, with the state after the wait.
\<close>

type_synonym 'w Select = "Duration \<Rightarrow> 'w \<Rightarrow> error option \<times> 'w"

record RetryOptions =
  MaxAttempts :: int
  InitialBackoff :: Duration
  MaxBackoff :: Duration
  ShouldRetry :: "(error \<Rightarrow> bool) option"

definition isTransientError :: "error \<Rightarrow> bool" where
  "isTransientError err =
     (case asNetError err of
        Some (timeout, temporary) \<Rightarrow> timeout \<or> temporary
      | None \<Rightarrow> False)"

definition defaultRetryOptions :: "RetryOptions \<Rightarrow> RetryOptions" where
  "defaultRetryOptions opts =
     (let opts1 = (if MaxAttempts opts \<le> 0 then opts\<lparr>MaxAttempts := 3\<rparr> else opts);
          opts2 = (if sint (InitialBackoff opts1) \<le> 0
                   then opts1\<lparr>InitialBackoff := 100 * 1000000\<rparr> else opts1);
          opts3 = (if ShouldRetry opts2 = None
                   then opts2\<lparr>ShouldRetry := Some isTransientError\<rparr> else opts2)
      in opts3)"

definition sleepWithContext :: "'w Select \<Rightarrow> Duration \<Rightarrow> 'w \<Rightarrow> error option \<times> 'w" where
  "sleepWithContext sel d w =
     (case sel d w of
        (Some err, w') \<Rightarrow> (Some err, w')
      | (None, w') \<Rightarrow> (None, w'))"

definition nextBackoff :: "Duration \<Rightarrow> Duration \<Rightarrow> Duration" where
  "nextBackoff current maxb =
     (let next = current * 2 in
      if 0 < sint maxb \<and> sint maxb < sint next then maxb else next)"

text \<open>
  The \<^verbatim>\<open>for\<close> loop of \<^verbatim>\<open>retryLanguageModel.Generate\<close>; \<open>attempt\<close>, \<open>backoff\<close> and
  \<open>lastErr\<close> are its variables. \<^verbatim>\<open>attempt\<close> is an \<^verbatim>\<open>int\<close> that would take
  \<open>2\<^sup>6\<^sup>3\<close> failed attempts to overflow; it is an \<open>int\<close> here. The backoff is a
  64-bit value and doubles with wrap-around. A nil \<^verbatim>\<open>ShouldRetry\<close> would be a call of a
  nil function; \<^verbatim>\<open>RetryLanguageModel\<close> never builds such a wrapper
  (\<open>defaultRetryOptions_ShouldRetry\<close> below).
\<close>

function retryLoop ::
  "RetryOptions \<Rightarrow> 'w LanguageModel \<Rightarrow> 'w Select \<Rightarrow> LanguageModelRequest \<Rightarrow>
   int \<Rightarrow> Duration \<Rightarrow> error option \<Rightarrow> 'w \<Rightarrow> (error + LanguageModelResponse) \<times> 'w" where
  "retryLoop opt next sel req attempt backoff lastErr w =
     (if attempt \<le> MaxAttempts opt then
        (case (if attempt > 1 then
                 (case sleepWithContext sel backoff w of
                    (Some err, w1) \<Rightarrow> (Some err, backoff, w1)
                  | (None, w1) \<Rightarrow> (None, nextBackoff backoff (MaxBackoff opt), w1))
               else (None, backoff, w)) of
           (Some err, b, w1) \<Rightarrow> (Inl err, w1)
         | (None, b, w1) \<Rightarrow>
             (case next req w1 of
                (Inr res, w2) \<Rightarrow> (Inr res, w2)
              | (Inl err, w2) \<Rightarrow>
                  if errors_Is err Canceled \<or> errors_Is err DeadlineExceeded then (Inl err, w2)
                  else
                    (case ShouldRetry opt of
                       None \<Rightarrow> (Inl (ErrorString ''panic: nil ShouldRetry''), w2)
                     | Some shouldRetry \<Rightarrow>
                         if \<not> shouldRetry err then (Inl err, w2)
                         else retryLoop opt next sel req (attempt + 1) b (Some err) w2)))
      else
        (case lastErr of
           Some err \<Rightarrow> (Inl err, w)
         | None \<Rightarrow>
             (Inl (ErrorString ''middleware: retry: exhausted attempts with no result''), w)))"
  by pat_completeness auto
termination
  by (relation "measure (\<lambda>(opt, next, sel, req, attempt, backoff, lastErr, w).
                   nat (MaxAttempts opt + 1 - attempt))") auto

text \<open>
  \<^verbatim>\<open>RetryLanguageModel(opts)(next).Generate\<close>: the options pass through
  \<open>defaultRetryOptions\<close> when the wrapper is built.
\<close>

definition retry_Generate ::
  "RetryOptions \<Rightarrow> 'w LanguageModel \<Rightarrow> 'w Select \<Rightarrow> 'w LanguageModel" where
  "retry_Generate opts next sel req w =
     (let opt = defaultRetryOptions opts
      in retryLoop opt next sel req 1 (InitialBackoff opt) None w)"

text \<open>
  To count invocations, a model is wrapped so that the state carries the number of calls
  made so far; \<open>uncounted\<close> lets a wait run on such a state without touching the count.
\<close>

definition counting :: "'w LanguageModel \<Rightarrow> ('w \<times> nat) LanguageModel" where
  "counting next req = (\<lambda>(w, n). case next req w of (r, w') \<Rightarrow> (r, (w', Suc n)))"

definition uncounted :: "'w Select \<Rightarrow> ('w \<times> nat) Select" where
  "uncounted sel d = (\<lambda>(w, n). case sel d w of (r, w') \<Rightarrow> (r, (w', n)))"

subsection \<open>Example inputs\<close>

text \<open>
  A model that fails with a given error on its first two invocations and succeeds from the
  third on (its state is the number of invocations so far), a context that is never
  cancelled, one that is cancelled during every wait, and a predicate that classifies
  every error as transient.
\<close>

definition failsTwice :: "error \<Rightarrow> LanguageModelResponse \<Rightarrow> nat LanguageModel" where
  "failsTwice e res req n = (if n < 2 then Inl e else Inr res, Suc n)"

definition neverCancelled :: "'w Select" where
  "neverCancelled d w = (None, w)"

definition cancelledWhileWaiting :: "'w Select" where
  "cancelledWhileWaiting d w = (Some Canceled, w)"

text \<open>
  The timeout error of package net, whose \<^verbatim>\<open>Is\<close> method accepts
  \<^verbatim>\<open>context.DeadlineExceeded\<close>, and the zero \<^verbatim>\<open>RetryOptions\<close>.
\<close>

definition netTimeout :: error where
  "netTimeout =
     GoError ''dial tcp 127.0.0.1:9: i/o timeout'' [DeadlineExceeded] (Some (True, True)) []"

definition zeroOptions :: RetryOptions where
  "zeroOptions = \<lparr>MaxAttempts = 0, InitialBackoff = 0, MaxBackoff = 0, ShouldRetry = None\<rparr>"

definition alwaysTransient :: "error \<Rightarrow> bool" where
  "alwaysTransient e = True"

definition exampleRequest :: LanguageModelRequest where
  "exampleRequest =
     \<lparr>lm_Model = ''m'', lm_Messages = [\<lparr>Role = ''user'', Content = ''hi''\<rparr>],
      lm_Temperature = None, lm_TopP = None, lm_MaxTokens = None, lm_Stop = [],
      lm_JSONSchema = [], lm_Tools = []\<rparr>"

definition exampleResponse :: LanguageModelResponse where
  "exampleResponse = \<lparr>resp_Text = ''hello'', resp_StopReason = ''stop'', resp_ToolCalls = []\<rparr>"

definition alwaysRetry :: RetryOptions where
  "alwaysRetry =
     \<lparr>MaxAttempts = 0, InitialBackoff = 0, MaxBackoff = 0, ShouldRetry = Some alwaysTransient\<rparr>"

subsection \<open>Properties of the retry loop\<close>

lemma default_alwaysRetry:
  "defaultRetryOptions alwaysRetry =
     \<lparr>MaxAttempts = 3, InitialBackoff = 100000000, MaxBackoff = 0,
      ShouldRetry = Some alwaysTransient\<rparr>"
  by (simp add: defaultRetryOptions_def alwaysRetry_def)

declare retryLoop.simps [simp del]

lemma defaultRetryOptions_MaxAttempts:
  "MaxAttempts (defaultRetryOptions opts) = (if MaxAttempts opts \<le> 0 then 3 else MaxAttempts opts)"
  by (simp add: defaultRetryOptions_def Let_def)

lemma defaultRetryOptions_MaxBackoff:
  "MaxBackoff (defaultRetryOptions opts) = MaxBackoff opts"
  by (simp add: defaultRetryOptions_def Let_def)

lemma defaultRetryOptions_ShouldRetry:
  "ShouldRetry (defaultRetryOptions opts) =
     (case ShouldRetry opts of None \<Rightarrow> Some isTransientError | Some p \<Rightarrow> Some p)"
  by (simp add: defaultRetryOptions_def Let_def split: option.splits)

lemma retryLoop_cancelled_call:
  assumes "attempt \<le> MaxAttempts opt"
    and "if 1 < attempt then sleepWithContext sel backoff w = (None, w1) else w1 = w"
    and "next req w1 = (Inl err, w2)"
    and "errors_Is err Canceled \<or> errors_Is err DeadlineExceeded"
  shows "retryLoop opt (counting next) (uncounted sel) req attempt backoff lastErr (w, n) =
         (Inl err, (w2, Suc n))"
proof (cases "1 < attempt")
  case True
  with assms(2) have "sel backoff w = (None, w1)"
    by (auto simp: sleepWithContext_def split: prod.splits option.splits)
  then have "sleepWithContext (uncounted sel) backoff (w, n) = (None, (w1, n))"
    by (simp add: sleepWithContext_def uncounted_def)
  with True assms(1,3,4) show ?thesis
    by (subst retryLoop.simps) (auto simp: counting_def)
next
  case False
  with assms(2) have "w1 = w" by simp
  with False assms(1,3,4) show ?thesis
    by (subst retryLoop.simps) (auto simp: counting_def)
qed

lemma retryLoop_cancelled_sleep:
  assumes "1 < attempt" and "attempt \<le> MaxAttempts opt"
    and "sleepWithContext sel backoff w = (Some cerr, w1)"
  shows "retryLoop opt (counting next) (uncounted sel) req attempt backoff lastErr (w, n) =
         (Inl cerr, (w1, n))"
proof -
  from assms(3) have "sel backoff w = (Some cerr, w1)"
    by (auto simp: sleepWithContext_def split: prod.splits option.splits)
  then have "sleepWithContext (uncounted sel) backoff (w, n) = (Some cerr, (w1, n))"
    by (simp add: sleepWithContext_def uncounted_def)
  with assms(1,2) show ?thesis
    by (subst retryLoop.simps) simp
qed

lemma retryLoop_success:
  assumes "attempt \<le> MaxAttempts opt"
    and "if 1 < attempt then sleepWithContext sel backoff w = (None, w1) else w1 = w"
    and "next req w1 = (Inr res, w2)"
  shows "retryLoop opt (counting next) (uncounted sel) req attempt backoff lastErr (w, n) =
         (Inr res, (w2, Suc n))"
proof (cases "1 < attempt")
  case True
  with assms(2) have "sel backoff w = (None, w1)"
    by (auto simp: sleepWithContext_def split: prod.splits option.splits)
  then have "sleepWithContext (uncounted sel) backoff (w, n) = (None, (w1, n))"
    by (simp add: sleepWithContext_def uncounted_def)
  with True assms(1,3) show ?thesis
    by (subst retryLoop.simps) (auto simp: counting_def)
next
  case False
  with assms(2) have "w1 = w" by simp
  with False assms(1,3) show ?thesis
    by (subst retryLoop.simps) (auto simp: counting_def)
qed

lemma retryLoop_retry:
  assumes "attempt \<le> MaxAttempts opt"
    and "if 1 < attempt then sleepWithContext sel backoff w = (None, w1) else w1 = w"
    and "next req w1 = (Inl err, w2)"
    and "\<not> errors_Is err Canceled" and "\<not> errors_Is err DeadlineExceeded"
    and "ShouldRetry opt = Some p" and "p err"
  shows "retryLoop opt (counting next) (uncounted sel) req attempt backoff lastErr (w, n) =
         retryLoop opt (counting next) (uncounted sel) req (attempt + 1)
           (if 1 < attempt then nextBackoff backoff (MaxBackoff opt) else backoff)
           (Some err) (w2, Suc n)"
proof (cases "1 < attempt")
  case True
  with assms(2) have "sel backoff w = (None, w1)"
    by (auto simp: sleepWithContext_def split: prod.splits option.splits)
  then have "sleepWithContext (uncounted sel) backoff (w, n) = (None, (w1, n))"
    by (simp add: sleepWithContext_def uncounted_def)
  with True assms(1,3-) show ?thesis
    by (subst retryLoop.simps) (auto simp: counting_def)
next
  case False
  with assms(2) have "w1 = w" by simp
  with False assms(1,3-) show ?thesis
    by (subst retryLoop.simps) (auto simp: counting_def)
qed

text \<open>
  C4, as amended. With the default number of attempts (\<open>MaxAttempts\<close> unset or 3) and a
  predicate that classifies every error as transient: if the wrapped call fails on its
  first two invocations with errors that are neither \<^verbatim>\<open>context.Canceled\<close> nor
  \<^verbatim>\<open>context.DeadlineExceeded\<close> (under \<^verbatim>\<open>errors.Is\<close>), neither backoff sleep is cut
  short by the context, and the third invocation succeeds, then the wrapped call is
  invoked exactly three times and the third response is returned.
\<close>

theorem three_attempts_then_success:
  assumes "MaxAttempts opts \<le> 0 \<or> MaxAttempts opts = 3"
    and "ShouldRetry opts = Some p" and "\<forall>e. p e"
    and "next req w0 = (Inl e1, w1)"
    and "\<not> errors_Is e1 Canceled \<and> \<not> errors_Is e1 DeadlineExceeded"
    and "sleepWithContext sel (InitialBackoff (defaultRetryOptions opts)) w1 = (None, w1')"
    and "next req w1' = (Inl e2, w2)"
    and "\<not> errors_Is e2 Canceled \<and> \<not> errors_Is e2 DeadlineExceeded"
    and "sleepWithContext sel
           (nextBackoff (InitialBackoff (defaultRetryOptions opts)) (MaxBackoff opts)) w2 =
         (None, w2')"
    and "next req w2' = (Inr res, w3)"
  shows "retry_Generate opts (counting next) (uncounted sel) req (w0, 0) = (Inr res, (w3, 3))"
proof -
  define opt where "opt = defaultRetryOptions opts"
  have m: "MaxAttempts opt = 3"
    using assms(1) by (auto simp: opt_def defaultRetryOptions_MaxAttempts)
  have sr: "ShouldRetry opt = Some p"
    using assms(2) by (simp add: opt_def defaultRetryOptions_ShouldRetry)
  have mb: "MaxBackoff opt = MaxBackoff opts"
    by (simp add: opt_def defaultRetryOptions_MaxBackoff)
  have p: "p e1" "p e2" using assms(3) by simp_all
  have s1: "retryLoop opt (counting next) (uncounted sel) req 1 (InitialBackoff opt) None (w0, 0) =
            retryLoop opt (counting next) (uncounted sel) req 2 (InitialBackoff opt)
              (Some e1) (w1, Suc 0)"
    using retryLoop_retry[of 1 opt sel "InitialBackoff opt" w0 w0 "next" req e1 w1 p None 0]
      m sr p assms(4,5) by simp
  have s2: "retryLoop opt (counting next) (uncounted sel) req 2 (InitialBackoff opt)
              (Some e1) (w1, Suc 0) =
            retryLoop opt (counting next) (uncounted sel) req 3
              (nextBackoff (InitialBackoff opt) (MaxBackoff opt)) (Some e2) (w2, Suc (Suc 0))"
    using retryLoop_retry[of 2 opt sel "InitialBackoff opt" w1 w1' "next" req e2 w2 p "Some e1" "Suc 0"]
      m sr p assms(6,7,8) by (simp add: opt_def)
  have s3: "retryLoop opt (counting next) (uncounted sel) req 3
              (nextBackoff (InitialBackoff opt) (MaxBackoff opt)) (Some e2) (w2, Suc (Suc 0)) =
            (Inr res, (w3, Suc (Suc (Suc 0))))"
    using retryLoop_success[of 3 opt sel "nextBackoff (InitialBackoff opt) (MaxBackoff opt)"
        w2 w2' "next" req res w3 "Some e2" "Suc (Suc 0)"]
      m assms(9,10) by (simp add: opt_def mb[unfolded opt_def])
  show ?thesis
    using s1 s2 s3 by (simp add: retry_Generate_def Let_def opt_def numeral_3_eq_3)
qed

theorem three_attempts_then_success_witness:
  "retry_Generate alwaysRetry
     (counting (failsTwice (ErrorString ''503 service unavailable'') exampleResponse))
     (uncounted neverCancelled) exampleRequest (0, 0) = (Inr exampleResponse, (3, 3))"
  using three_attempts_then_success
    [of alwaysRetry alwaysTransient
        "failsTwice (ErrorString ''503 service unavailable'') exampleResponse" exampleRequest
        0 "ErrorString ''503 service unavailable''" 1 neverCancelled 1
        "ErrorString ''503 service unavailable''" 2 2 exampleResponse 3]
  by (simp add: alwaysRetry_def alwaysTransient_def failsTwice_def neverCancelled_def
        sleepWithContext_def)

text \<open>
  C4 as stated fails: the predicate is not asked about a cancellation or deadline error.
  A model that fails twice with \<^verbatim>\<open>context.DeadlineExceeded\<close> and would succeed on its
  third invocation is invoked once, and the wrapper returns that error, although the
  predicate classifies every error as transient.
\<close>

theorem transient_deadline_error_counterexample:
  "alwaysTransient DeadlineExceeded \<and>
   failsTwice DeadlineExceeded exampleResponse exampleRequest 0 = (Inl DeadlineExceeded, 1) \<and>
   failsTwice DeadlineExceeded exampleResponse exampleRequest 1 = (Inl DeadlineExceeded, 2) \<and>
   failsTwice DeadlineExceeded exampleResponse exampleRequest 2 = (Inr exampleResponse, 3) \<and>
   retry_Generate alwaysRetry (counting (failsTwice DeadlineExceeded exampleResponse))
     (uncounted neverCancelled) exampleRequest (0, 0) = (Inl DeadlineExceeded, (1, 1))"
  by (simp add: alwaysTransient_def failsTwice_def retry_Generate_def default_alwaysRetry
        retryLoop.simps counting_def)

text \<open>
  C5. At any iteration of the loop (any \<open>attempt\<close> up to the maximum, any backoff and
  last error), counting the invocations of the wrapped model:
  if this attempt's call returns an error that \<^verbatim>\<open>errors.Is\<close> \<^verbatim>\<open>context.Canceled\<close> or
  \<^verbatim>\<open>context.DeadlineExceeded\<close> (it is the sentinel, its \<^verbatim>\<open>Is\<close> method accepts the
  sentinel, or it wraps such an error), the wrapper returns that very error and this call
  was the last invocation, whatever the retry predicate says of it; if the context is
  cancelled during the backoff sleep before an attempt, the wrapper returns the context's
  error, whatever the last transient error was, and the wrapped model is not invoked
  again; and when the first attempt fails with a cancellation or deadline error,
  \<^verbatim>\<open>Generate\<close> returns it after exactly one invocation, for every configuration.
\<close>

theorem cancellation_is_never_retried:
  "(attempt \<le> MaxAttempts opt \<and>
    (if 1 < attempt then sleepWithContext sel backoff w = (None, w1) else w1 = w) \<and>
    next req w1 = (Inl err, w2) \<and> (errors_Is err Canceled \<or> errors_Is err DeadlineExceeded)
    \<longrightarrow> retryLoop opt (counting next) (uncounted sel) req attempt backoff lastErr (w, n) =
          (Inl err, (w2, Suc n)))
   \<and>
   (1 < attempt \<and> attempt \<le> MaxAttempts opt \<and>
    sleepWithContext sel backoff w = (Some cerr, w1)
    \<longrightarrow> retryLoop opt (counting next) (uncounted sel) req attempt backoff lastErr (w, n) =
          (Inl cerr, (w1, n)))
   \<and>
   (next req w = (Inl err, w2) \<and> (errors_Is err Canceled \<or> errors_Is err DeadlineExceeded)
    \<longrightarrow> retry_Generate opts (counting next) (uncounted sel) req (w, 0) = (Inl err, (w2, 1)))"
proof (intro conjI impI)
  assume "attempt \<le> MaxAttempts opt \<and>
    (if 1 < attempt then sleepWithContext sel backoff w = (None, w1) else w1 = w) \<and>
    next req w1 = (Inl err, w2) \<and> (errors_Is err Canceled \<or> errors_Is err DeadlineExceeded)"
  then show "retryLoop opt (counting next) (uncounted sel) req attempt backoff lastErr (w, n) =
          (Inl err, (w2, Suc n))"
    using retryLoop_cancelled_call[of attempt opt sel backoff w w1 "next" req err w2] by blast
next
  assume "1 < attempt \<and> attempt \<le> MaxAttempts opt \<and>
    sleepWithContext sel backoff w = (Some cerr, w1)"
  then show "retryLoop opt (counting next) (uncounted sel) req attempt backoff lastErr (w, n) =
          (Inl cerr, (w1, n))"
    by (simp add: retryLoop_cancelled_sleep)
next
  assume a: "next req w = (Inl err, w2) \<and>
    (errors_Is err Canceled \<or> errors_Is err DeadlineExceeded)"
  have m: "1 \<le> MaxAttempts (defaultRetryOptions opts)"
    by (simp add: defaultRetryOptions_MaxAttempts)
  have "retryLoop (defaultRetryOptions opts) (counting next) (uncounted sel) req 1
          (InitialBackoff (defaultRetryOptions opts)) None (w, 0) = (Inl err, (w2, Suc 0))"
    by (rule retryLoop_cancelled_call[where ?w1.0 = w]) (use a m in simp_all)
  then show "retry_Generate opts (counting next) (uncounted sel) req (w, 0) = (Inl err, (w2, 1))"
    by (simp add: retry_Generate_def Let_def)
qed

theorem cancellation_is_never_retried_witness:
  "retryLoop (defaultRetryOptions alwaysRetry)
     (counting (failsTwice (GoError ''Post /v1/chat/completions'' [] None [Canceled]) exampleResponse))
     (uncounted neverCancelled) exampleRequest 2 100000000
     (Some (ErrorString ''503 service unavailable'')) (1, 1)
   = (Inl (GoError ''Post /v1/chat/completions'' [] None [Canceled]), (2, 2))
   \<and>
   retryLoop (defaultRetryOptions alwaysRetry)
     (counting (failsTwice (ErrorString ''503 service unavailable'') exampleResponse))
     (uncounted cancelledWhileWaiting) exampleRequest 2 100000000
     (Some (ErrorString ''503 service unavailable'')) (1, 1)
   = (Inl Canceled, (1, 1))
   \<and>
   retry_Generate zeroOptions (counting (failsTwice netTimeout exampleResponse))
     (uncounted neverCancelled) exampleRequest (0, 0) = (Inl netTimeout, (1, 1))
   \<and>
   isTransientError netTimeout"
proof (intro conjI)
  show "retryLoop (defaultRetryOptions alwaysRetry)
     (counting (failsTwice (GoError ''Post /v1/chat/completions'' [] None [Canceled]) exampleResponse))
     (uncounted neverCancelled) exampleRequest 2 100000000
     (Some (ErrorString ''503 service unavailable'')) (1, 1)
   = (Inl (GoError ''Post /v1/chat/completions'' [] None [Canceled]), (2, 2))"
    using cancellation_is_never_retried
      [THEN conjunct1, of 2 "defaultRetryOptions alwaysRetry" neverCancelled 100000000 1 1
         "failsTwice (GoError ''Post /v1/chat/completions'' [] None [Canceled]) exampleResponse"
         exampleRequest "GoError ''Post /v1/chat/completions'' [] None [Canceled]" 2
         "Some (ErrorString ''503 service unavailable'')" 1]
    by (simp add: default_alwaysRetry neverCancelled_def sleepWithContext_def failsTwice_def)
  show "retryLoop (defaultRetryOptions alwaysRetry)
     (counting (failsTwice (ErrorString ''503 service unavailable'') exampleResponse))
     (uncounted cancelledWhileWaiting) exampleRequest 2 100000000
     (Some (ErrorString ''503 service unavailable'')) (1, 1)
   = (Inl Canceled, (1, 1))"
    using cancellation_is_never_retried
      [THEN conjunct2, THEN conjunct1, of 2 "defaultRetryOptions alwaysRetry"
         cancelledWhileWaiting 100000000 1 Canceled 1
         "failsTwice (ErrorString ''503 service unavailable'') exampleResponse"
         exampleRequest "Some (ErrorString ''503 service unavailable'')" 1]
    by (simp add: default_alwaysRetry cancelledWhileWaiting_def sleepWithContext_def)
  show "retry_Generate zeroOptions (counting (failsTwice netTimeout exampleResponse))
     (uncounted neverCancelled) exampleRequest (0, 0) = (Inl netTimeout, (1, 1))"
    using cancellation_is_never_retried
      [THEN conjunct2, THEN conjunct2,
       of "failsTwice netTimeout exampleResponse" exampleRequest 0 netTimeout 1
         zeroOptions neverCancelled]
    by (simp add: failsTwice_def netTimeout_def)
  show "isTransientError netTimeout"
    by (simp add: isTransientError_def netTimeout_def)
qed

section \<open>Slices of messages\<close>

text \<open>
  A \<^verbatim>\<open>[]ai.Message\<close> is a view of a backing array: \<^verbatim>\<open>append\<close> writes into the
  array when the capacity allows and allocates a new array otherwise, so two slices can
  share what is written. The heap lists the arrays that exist, each by its elements; an
  array's address is its index. A slice is nil (\<open>arr = None\<close>) or names an array, the
  offset of its first element, its length and its capacity.
\<close>

type_synonym heap = "Message list list"

record slice =
  arr :: "nat option"
  off :: nat
  len :: nat
  cap :: nat

definition nilSlice :: slice where
  "nilSlice = \<lparr>arr = None, off = 0, len = 0, cap = 0\<rparr>"

definition zeroMessage :: Message where
  "zeroMessage = \<lparr>Role = [], Content = []\<rparr>"

text \<open>The elements of a slice, in order.\<close>

definition elems :: "heap \<Rightarrow> slice \<Rightarrow> Message list" where
  "elems h s =
     (case arr s of
        None \<Rightarrow> []
      | Some a \<Rightarrow> if a < length h then take (len s) (drop (off s) (h ! a)) else [])"

text \<open>
  \<^verbatim>\<open>append(s, xs...)\<close>. With room for \<open>xs\<close> the elements are written into the array
  of \<open>s\<close> behind its last element. Without room a new array is allocated, of a capacity
  that the runtime chooses (\<open>grow\<close>, from the old capacity and the length needed; at
  least the length needed), holding the elements of \<open>s\<close>, then \<open>xs\<close>, then zero values.
\<close>

definition go_append ::
  "(nat \<Rightarrow> nat \<Rightarrow> nat) \<Rightarrow> heap \<Rightarrow> slice \<Rightarrow> Message list \<Rightarrow> heap \<times> slice" where
  "go_append grow h s xs =
     (let n = len s + length xs in
      if n \<le> cap s then
        (case arr s of
           None \<Rightarrow> (h, s)
         | Some a \<Rightarrow>
             (h[a := take (off s + len s) (h ! a) @ xs @ drop (off s + n) (h ! a)],
              s\<lparr>len := n\<rparr>))
      else
        (let c = max n (grow (cap s) n)
         in (h @ [elems h s @ xs @ replicate (c - n) zeroMessage],
             \<lparr>arr = Some (length h), off = 0, len = n, cap = c\<rparr>)))"

section \<open>Package ai\<close>

definition RoleAssistant :: string where "RoleAssistant = ''assistant''"
definition RoleTool :: string where "RoleTool = ''tool''"

text \<open>The \<^verbatim>\<open>Error()\<close> method.\<close>

fun Error :: "error \<Rightarrow> string" where
  "Error Canceled = ''context canceled''"
| "Error DeadlineExceeded = ''context deadline exceeded''"
| "Error ErrMissingModel = ''ai: missing LanguageModel in request''"
| "Error (InvalidArgumentError parameter message) =
     ''ai: invalid argument for parameter '' @ parameter @ '': '' @ message"
| "Error (UnsupportedFunctionalityError feature message) =
     (if message \<noteq> [] then ''ai: unsupported functionality ('' @ feature @ ''): '' @ message
      else ''ai: unsupported functionality ('' @ feature @ '')'')"
| "Error (ErrorString t) = t"
| "Error (GoError t accepts net unwraps) = t"

text \<open>
  \<^verbatim>\<open>GenerateTextRequest\<close>, \<^verbatim>\<open>GenerateTextResponse\<close> and \<^verbatim>\<open>GenerateText\<close>. The
  context handed to the model is part of the state \<open>'w\<close>. A model that returns no error
  is taken to return a response (a nil response would be dereferenced).
\<close>

record 'w GenerateTextRequest =
  req_Model :: "'w LanguageModel option"
  req_Messages :: "Message list"
  req_Temperature :: "float64 option"
  req_TopP :: "float64 option"
  req_MaxTokens :: "int option"
  req_Stop :: "string list"
  req_JSONSchema :: string
  req_Tools :: "ToolDefinition list"

record GenerateTextResponse =
  gt_Text :: string
  gt_StopReason :: string
  gt_ToolCalls :: "ToolCall list"

definition GenerateText ::
  "'w GenerateTextRequest \<Rightarrow> 'w \<Rightarrow> (error + GenerateTextResponse) \<times> 'w" where
  "GenerateText req w =
     (case req_Model req of
        None \<Rightarrow> (Inl ErrMissingModel, w)
      | Some model \<Rightarrow>
          let lmReq = \<lparr>lm_Model = [], lm_Messages = req_Messages req,
                       lm_Temperature = req_Temperature req, lm_TopP = req_TopP req,
                       lm_MaxTokens = req_MaxTokens req, lm_Stop = req_Stop req,
                       lm_JSONSchema = req_JSONSchema req, lm_Tools = req_Tools req\<rparr>
          in (case model lmReq w of
                (Inl err, w') \<Rightarrow> (Inl err, w')
              | (Inr lmRes, w') \<Rightarrow>
                  (Inr \<lparr>gt_Text = resp_Text lmRes, gt_StopReason = resp_StopReason lmRes,
                        gt_ToolCalls = resp_ToolCalls lmRes\<rparr>, w')))"

text \<open>
  A \<^verbatim>\<open>registry.Registry\<close>, by its \<^verbatim>\<open>LanguageModel\<close> method: the lookup of a name
  returns an error, or a model that may be nil (\<open>None\<close>). The lookup may read and change
  the state.
\<close>

type_synonym 'w Registry = "string \<Rightarrow> 'w \<Rightarrow> (error + 'w LanguageModel option) \<times> 'w"

definition GenerateTextWithRegistry ::
  "'w Registry option \<Rightarrow> string \<Rightarrow> 'w GenerateTextRequest \<Rightarrow> 'w \<Rightarrow>
   (error + GenerateTextResponse) \<times> 'w" where
  "GenerateTextWithRegistry reg modelName req w =
     (case reg of
        None \<Rightarrow> (Inl (InvalidArgumentError ''reg'' ''registry must not be nil''), w)
      | Some r \<Rightarrow>
          (case r modelName w of
             (Inl err, w') \<Rightarrow> (Inl err, w')
           | (Inr lm, w') \<Rightarrow> GenerateText (req\<lparr>req_Model := lm\<rparr>) w'))"

section \<open>Package agent\<close>

text \<open>
  The counters \<^verbatim>\<open>steps\<close> and \<^verbatim>\<open>maxSteps\<close> are Go \<^verbatim>\<open>int\<close>s. \<^verbatim>\<open>steps\<close> starts at 0
  and is incremented only while it is below \<^verbatim>\<open>maxSteps\<close>, so it never wraps around, and
  the integers stand for it.
\<close>

datatype EventType =
    EventTypeMessage | EventTypeToolStart | EventTypeToolResult | EventTypeError | EventTypeDone

record Event =
  event_Type :: EventType
  event_Step :: int
  event_Role :: string
  event_Content :: string
  event_Tool :: string

text \<open>
  The state of a run's surroundings has two parts: \<open>'w\<close> is what the registry, the
  model and the tools work on, \<open>'e\<close> is state that only the emitter has (the output it
  has written). An \<^verbatim>\<open>EventEmitter\<close> is a Go function value: it may read and write
  both parts. \<open>None\<close> is the nil emitter. Functions handed to the run (emitter, model,
  tools) are taken to return; a panic in one of them is not modelled, and none of them
  writes to the arrays of messages.
\<close>

type_synonym ('w, 'e) EventEmitter = "(Event \<Rightarrow> 'w \<Rightarrow> 'e \<Rightarrow> 'w \<times> 'e) option"

text \<open>
  A \<^verbatim>\<open>Tool\<close>; \<open>'r\<close> is the type of the values that \<^verbatim>\<open>Execute\<close> returns (\<^verbatim>\<open>any\<close>).
  \<^verbatim>\<open>Execute\<close> is taken to be set: calling a nil function would panic.
\<close>

record ('w, 'r) Tool =
  tool_Name :: string
  tool_Description :: string
  tool_Parameters :: string
  Execute :: "string \<Rightarrow> 'w \<Rightarrow> (error + 'r) \<times> 'w"

text \<open>
  \<^verbatim>\<open>Config\<close>. The map \<^verbatim>\<open>Tools\<close> is a list of entries with a lookup by key
  (\<open>map_of\<close>); a Go map holds each key once.
\<close>

record ('w, 'r) Config =
  Registry :: "'w Registry option"
  ModelName :: string
  Tools :: "(string \<times> ('w, 'r) Tool) list"
  MaxSteps :: int

record Result =
  Messages :: slice
  FinalText :: string
  Steps :: int

text \<open>
  What the run takes from the standard library and the runtime:
  \<^item> \<open>Marshal name result\<close> is \<^verbatim>\<open>json.Marshal\<close> of the map
    \<^verbatim>\<open>{"tool": name, "result": result}\<close>, the bytes or the error;
  \<^item> \<open>Quote\<close> is the verb \<^verbatim>\<open>%q\<close> of package fmt on a string;
  \<^item> \<open>growslice\<close> is the capacity the runtime gives a slice that has to grow;
  \<^item> \<open>rangeOrder steps\<close> is the order in which the \<^verbatim>\<open>range\<close> over the map of tools
    visits its entries in the iteration numbered \<open>steps\<close>: Go leaves the order open, and
    it may differ from one \<^verbatim>\<open>range\<close> to the next. It rearranges the entries.
\<close>

record 'r Runtime =
  Marshal :: "string \<Rightarrow> 'r \<Rightarrow> error + string"
  Quote :: "string \<Rightarrow> string"
  growslice :: "nat \<Rightarrow> nat \<Rightarrow> nat"
  rangeOrder :: "int \<Rightarrow> ToolDefinition list \<Rightarrow> ToolDefinition list"

text \<open>The verb \<^verbatim>\<open>%d\<close> on an \<^verbatim>\<open>int\<close>.\<close>

fun digits :: "nat \<Rightarrow> string" where
  "digits n = (if n < 10 then [char_of (48 + n)] else digits (n div 10) @ [char_of (48 + n mod 10)])"

definition Itoa :: "int \<Rightarrow> string" where
  "Itoa i = (if i < 0 then CHR ''-'' # digits (nat (- i)) else digits (nat i))"

definition validate :: "('w, 'r) Config \<Rightarrow> error option" where
  "validate c =
     (if Registry c = None then Some (InvalidArgumentError ''Registry'' ''must not be nil'')
      else if ModelName c = [] then Some (InvalidArgumentError ''ModelName'' ''must not be empty'')
      else None)"

definition maxStepsOrDefault :: "int \<Rightarrow> int" where
  "maxStepsOrDefault v = (if v \<le> 0 then 8 else v)"

definition emitEvent :: "('w, 'e) EventEmitter \<Rightarrow> Event \<Rightarrow> 'w \<Rightarrow> 'e \<Rightarrow> 'w \<times> 'e" where
  "emitEvent emit ev w e = (case emit of None \<Rightarrow> (w, e) | Some f \<Rightarrow> f ev w e)"

text \<open>The tool definitions built at the top of an iteration.\<close>

definition toolDefs :: "'r Runtime \<Rightarrow> int \<Rightarrow> ('w, 'r) Config \<Rightarrow> ToolDefinition list" where
  "toolDefs rt steps cfg =
     (if length (Tools cfg) > 0 then
        rangeOrder rt steps
          (map (\<lambda>(name, t).
                  \<lparr>def_Name = name, def_Description = tool_Description t,
                   def_Parameters =
                     (if length (tool_Parameters t) > 0 then tool_Parameters t else [])\<rparr>)
               (Tools cfg))
      else [])"

text \<open>
  The loop over \<^verbatim>\<open>res.ToolCalls\<close>. Its result is the error it stopped with (\<open>None\<close>
  when every call went through) and the variable \<^verbatim>\<open>messages\<close>, the heap and the state
  as they are when the loop is left.
\<close>

fun runToolCalls ::
  "'r Runtime \<Rightarrow> ('w, 'r) Config \<Rightarrow> ('w, 'e) EventEmitter \<Rightarrow> int \<Rightarrow> ToolCall list \<Rightarrow>
   slice \<Rightarrow> heap \<Rightarrow> 'w \<Rightarrow> 'e \<Rightarrow> error option \<times> slice \<times> heap \<times> 'w \<times> 'e" where
  "runToolCalls rt cfg emit steps [] messages h w e = (None, messages, h, w, e)"
| "runToolCalls rt cfg emit steps (tc # tcs) messages h w e =
     (case map_of (Tools cfg) (Name tc) of
        None \<Rightarrow>
          (let err = UnsupportedFunctionalityError ''agent.tool''
                       (''no tool registered with name '' @ Quote rt (Name tc))
           in case emitEvent emit
                     \<lparr>event_Type = EventTypeError, event_Step = steps, event_Role = [],
                      event_Content = Error err, event_Tool = Name tc\<rparr> w e of
                (w', e') \<Rightarrow> (Some err, messages, h, w', e'))
      | Some tool \<Rightarrow>
          (case emitEvent emit
                  \<lparr>event_Type = EventTypeToolStart, event_Step = steps, event_Role = [],
                   event_Content = [], event_Tool = tool_Name tool\<rparr> w e of
             (w0, e0) \<Rightarrow>
               (case Execute tool (RawArguments tc) w0 of
                  (Inl err, w1) \<Rightarrow>
                    (case emitEvent emit
                            \<lparr>event_Type = EventTypeError, event_Step = steps, event_Role = [],
                             event_Content = Error err, event_Tool = tool_Name tool\<rparr> w1 e0 of
                       (w', e') \<Rightarrow> (Some err, messages, h, w', e'))
                | (Inr result, w1) \<Rightarrow>
                    (case Marshal rt (tool_Name tool) result of
                       Inl err \<Rightarrow>
                         (case emitEvent emit
                                 \<lparr>event_Type = EventTypeError, event_Step = steps,
                                  event_Role = [], event_Content = Error err,
                                  event_Tool = tool_Name tool\<rparr> w1 e0 of
                            (w', e') \<Rightarrow> (Some err, messages, h, w', e'))
                     | Inr data \<Rightarrow>
                         (case go_append (growslice rt) h messages
                                 [\<lparr>Role = RoleTool, Content = data\<rparr>] of
                            (h1, messages1) \<Rightarrow>
                              (case emitEvent emit
                                      \<lparr>event_Type = EventTypeToolResult, event_Step = steps,
                                       event_Role = [], event_Content = [],
                                       event_Tool = tool_Name tool\<rparr> w1 e0 of
                                 (w2, e2) \<Rightarrow>
                                   runToolCalls rt cfg emit steps tcs messages1 h1 w2 e2))))))"

text \<open>The request of one reasoning call: the history so far and the tool definitions.\<close>

definition agentRequest ::
  "'r Runtime \<Rightarrow> int \<Rightarrow> ('w, 'r) Config \<Rightarrow> Message list \<Rightarrow> 'w GenerateTextRequest" where
  "agentRequest rt steps cfg msgs =
     \<lparr>req_Model = None, req_Messages = msgs, req_Temperature = None, req_TopP = None,
      req_MaxTokens = None, req_Stop = [], req_JSONSchema = [],
      req_Tools = toolDefs rt steps cfg\<rparr>"

text \<open>The block \<^verbatim>\<open>if res.Text != ""\<close>: the assistant message is appended and reported.\<close>

definition appendAssistant ::
  "'r Runtime \<Rightarrow> ('w, 'e) EventEmitter \<Rightarrow> int \<Rightarrow> GenerateTextResponse \<Rightarrow> slice \<Rightarrow> heap \<Rightarrow>
   'w \<Rightarrow> 'e \<Rightarrow> heap \<times> slice \<times> 'w \<times> 'e" where
  "appendAssistant rt emit steps res messages h w e =
     (if gt_Text res \<noteq> [] then
        (case go_append (growslice rt) h messages
                [\<lparr>Role = RoleAssistant, Content = gt_Text res\<rparr>] of
           (h1, messages1) \<Rightarrow>
             (case emitEvent emit
                     \<lparr>event_Type = EventTypeMessage, event_Step = steps,
                      event_Role = RoleAssistant, event_Content = gt_Text res,
                      event_Tool = []\<rparr> w e of
                (w1, e1) \<Rightarrow> (h1, messages1, w1, e1)))
      else (h, messages, w, e))"

text \<open>
  The \<^verbatim>\<open>for\<close> loop of \<^verbatim>\<open>RunWithEvents\<close>; \<open>steps\<close> and \<open>messages\<close> are its variables.
  The result is what the run returns (\<open>Inl\<close> the error, \<open>Inr\<close> the Result) with the heap
  and the state it leaves.
\<close>

function agentLoop ::
  "'r Runtime \<Rightarrow> ('w, 'r) Config \<Rightarrow> ('w, 'e) EventEmitter \<Rightarrow> int \<Rightarrow> int \<Rightarrow> slice \<Rightarrow> heap \<Rightarrow>
   'w \<Rightarrow> 'e \<Rightarrow> (error + Result) \<times> heap \<times> 'w \<times> 'e" where
  "agentLoop rt cfg emit maxSteps steps messages h w e =
     (if steps \<ge> maxSteps then
        (let err = UnsupportedFunctionalityError ''agent.maxSteps''
                     (''maximum steps ('' @ Itoa maxSteps @ '') exceeded'')
         in case emitEvent emit
                   \<lparr>event_Type = EventTypeError, event_Step = steps, event_Role = [],
                    event_Content = Error err, event_Tool = []\<rparr> w e of
              (w', e') \<Rightarrow> (Inl err, h, w', e'))
      else
        (case GenerateTextWithRegistry (Registry cfg) (ModelName cfg)
                (agentRequest rt steps cfg (elems h messages)) w of
           (Inl err, w1) \<Rightarrow>
             (case emitEvent emit
                     \<lparr>event_Type = EventTypeError, event_Step = steps, event_Role = [],
                      event_Content = Error err, event_Tool = []\<rparr> w1 e of
                (w', e') \<Rightarrow> (Inl err, h, w', e'))
         | (Inr res, w1) \<Rightarrow>
             (case appendAssistant rt emit steps res messages h w1 e of
                (h1, messages1, w2, e2) \<Rightarrow>
                  if length (gt_ToolCalls res) = 0 then
                    (case emitEvent emit
                            \<lparr>event_Type = EventTypeDone, event_Step = steps, event_Role = [],
                             event_Content = [], event_Tool = []\<rparr> w2 e2 of
                       (w', e') \<Rightarrow>
                         (Inr \<lparr>Messages = messages1, FinalText = gt_Text res, Steps = steps\<rparr>,
                          h1, w', e'))
                  else
                    (case runToolCalls rt cfg emit steps (gt_ToolCalls res) messages1 h1 w2 e2 of
                       (Some err, messages2, h2, w3, e3) \<Rightarrow> (Inl err, h2, w3, e3)
                     | (None, messages2, h2, w3, e3) \<Rightarrow>
                         agentLoop rt cfg emit maxSteps (steps + 1) messages2 h2 w3 e3))))"
  by pat_completeness auto
termination
  by (relation "measure (\<lambda>(rt, cfg, emit, maxSteps, steps, messages, h, w, e).
                   nat (maxSteps - steps))") auto

text \<open>
  \<^verbatim>\<open>RunWithEvents\<close>. The caller's slice is read in the heap \<open>h\<close>;
  \<^verbatim>\<open>append([]ai.Message(nil), initialMessages...)\<close> appends its elements to the nil slice.
\<close>

definition RunWithEvents ::
  "'r Runtime \<Rightarrow> ('w, 'r) Config \<Rightarrow> slice \<Rightarrow> ('w, 'e) EventEmitter \<Rightarrow> heap \<Rightarrow> 'w \<Rightarrow> 'e \<Rightarrow>
   (error + Result) \<times> heap \<times> 'w \<times> 'e" where
  "RunWithEvents rt cfg initialMessages emit h w e =
     (case validate cfg of
        Some err \<Rightarrow> (Inl err, h, w, e)
      | None \<Rightarrow>
          (case go_append (growslice rt) h nilSlice (elems h initialMessages) of
             (h0, messages) \<Rightarrow>
               agentLoop rt cfg emit (maxStepsOrDefault (MaxSteps cfg)) 0 messages h0 w e))"

text \<open>\<^verbatim>\<open>Run\<close>: \<^verbatim>\<open>RunWithEvents\<close> with the nil emitter.\<close>

definition Run ::
  "'r Runtime \<Rightarrow> ('w, 'r) Config \<Rightarrow> slice \<Rightarrow> heap \<Rightarrow> 'w \<Rightarrow> (error + Result) \<times> heap \<times> 'w" where
  "Run rt cfg initialMessages h w =
     (case RunWithEvents rt cfg initialMessages (None :: ('w, unit) EventEmitter) h w () of
        (r, h', w', u) \<Rightarrow> (r, h', w'))"

section \<open>Facts about slices\<close>

text \<open>
  Every slice that a Go program can hold is well formed: its length is at most its
  capacity, and its window of \<open>cap\<close> elements from \<open>off\<close> lies inside its array.
\<close>

definition validSlice :: "heap \<Rightarrow> slice \<Rightarrow> bool" where
  "validSlice h s =
     (len s \<le> cap s \<and>
      (case arr s of
         None \<Rightarrow> cap s = 0
       | Some a \<Rightarrow> a < length h \<and> off s + cap s \<le> length (h ! a)))"

text \<open>A slice whose array, if it has one, was allocated after the first \<open>k\<close> arrays.\<close>

definition freshFrom :: "nat \<Rightarrow> slice \<Rightarrow> bool" where
  "freshFrom k s = (case arr s of None \<Rightarrow> True | Some a \<Rightarrow> k \<le> a)"

lemma validSlice_nilSlice: "validSlice h nilSlice"
  by (simp add: validSlice_def nilSlice_def)

lemma freshFrom_nilSlice: "freshFrom k nilSlice"
  by (simp add: freshFrom_def nilSlice_def)

lemma elems_nilSlice: "elems h nilSlice = []"
  by (simp add: elems_def nilSlice_def)

lemma length_elems: "validSlice h s \<Longrightarrow> length (elems h s) = len s"
  by (auto simp: validSlice_def elems_def split: option.splits)

lemma go_append_wf_elems:
  assumes "validSlice h s" and "go_append g h s xs = (h', s')"
  shows "validSlice h' s' \<and> elems h' s' = elems h s @ xs"
proof (cases "len s + length xs \<le> cap s")
  case inplace: True
  show ?thesis
  proof (cases "arr s")
    case None
    with inplace assms show ?thesis
      by (auto simp: go_append_def validSlice_def elems_def Let_def)
  next
    case (Some a)
    let ?A = "h ! a"
    let ?A' = "take (off s + len s) ?A @ xs @ drop (off s + (len s + length xs)) ?A"
    from Some assms(1) have a: "a < length h" and b: "off s + cap s \<le> length ?A"
      by (simp_all add: validSlice_def)
    from inplace Some assms(2) have h': "h' = h[a := ?A']" and s': "s' = s\<lparr>len := len s + length xs\<rparr>"
      by (simp_all add: go_append_def Let_def)
    have lenA': "length ?A' = length ?A" using inplace b by simp
    let ?R = "take (len s) (drop (off s) ?A)"
    have lenP: "length (take (off s + len s) ?A) = off s + len s"
      using inplace b by simp
    have lenR: "length ?R = len s"
      using inplace b by simp
    have "drop (off s) (take (off s + len s) ?A) = ?R"
      by (simp add: drop_take)
    then have "drop (off s) ?A' = ?R @ xs @ drop (off s + (len s + length xs)) ?A"
      using lenP by simp
    then have "take (len s + length xs) (drop (off s) ?A') = ?R @ xs"
      using lenR by simp
    then have el: "elems h' s' = elems h s @ xs"
      using a Some by (simp add: elems_def h' s')
    have "validSlice h' s'"
      using a b inplace lenA' Some by (simp add: validSlice_def h' s')
    with el show ?thesis by simp
  qed
next
  case realloc: False
  let ?n = "len s + length xs"
  let ?c = "max ?n (g (cap s) ?n)"
  define E where "E = elems h s"
  from realloc assms(2) have h': "h' = h @ [E @ xs @ replicate (?c - ?n) zeroMessage]"
    and s': "s' = \<lparr>arr = Some (length h), off = 0, len = ?n, cap = ?c\<rparr>"
    by (simp_all add: go_append_def Let_def E_def)
  have l: "length E = len s" using assms(1) by (simp add: E_def length_elems)
  have "elems h' s' = E @ xs"
    by (simp add: elems_def h' s' l)
  moreover have "validSlice h' s'"
    by (simp add: validSlice_def h' s' l)
  ultimately show ?thesis by (simp add: E_def)
qed

lemma prefix_list_update:
  "prefix h0 h \<Longrightarrow> length h0 \<le> a \<Longrightarrow> prefix h0 (h[a := v])"
  by (auto simp: prefix_def list_update_append)

lemma go_append_frame:
  assumes "prefix h0 h" and "freshFrom (length h0) s" and "go_append g h s xs = (h', s')"
  shows "prefix h0 h' \<and> freshFrom (length h0) s'"
proof (cases "len s + length xs \<le> cap s")
  case True
  with assms show ?thesis
    by (auto simp: go_append_def Let_def freshFrom_def prefix_list_update split: option.splits)
next
  case False
  from assms(1) have "length h0 \<le> length h" by (rule prefix_length_le)
  with False assms show ?thesis
    by (auto simp: go_append_def Let_def freshFrom_def)
qed

lemma runToolCalls_inv:
  assumes "validSlice h messages" and "prefix h0 h" and "freshFrom (length h0) messages"
    and "runToolCalls rt cfg emit steps tcs messages h w e = (r, messages', h', w', e')"
  shows "validSlice h' messages' \<and> prefix h0 h' \<and> freshFrom (length h0) messages' \<and>
         (\<exists>added. elems h' messages' = elems h messages @ added \<and>
                  (\<forall>m \<in> set added. Role m = RoleTool))"
  using assms
proof (induction tcs arbitrary: messages h w e)
  case Nil
  then show ?case by simp
next
  case (Cons tc tcs)
  show ?case
  proof (cases "map_of (Tools cfg) (Name tc)")
    case None
    with Cons.prems show ?thesis by (auto simp: Let_def split: prod.splits)
  next
    case (Some tool)
    obtain w0 e0 where em0: "emitEvent emit
        \<lparr>event_Type = EventTypeToolStart, event_Step = steps, event_Role = [],
         event_Content = [], event_Tool = tool_Name tool\<rparr> w e = (w0, e0)" by fastforce
    obtain r1 w1 where ex: "Execute tool (RawArguments tc) w0 = (r1, w1)" by fastforce
    show ?thesis
    proof (cases r1)
      case (Inl err)
      with Some em0 ex Cons.prems show ?thesis by (auto simp: Let_def split: prod.splits)
    next
      case (Inr result)
      show ?thesis
      proof (cases "Marshal rt (tool_Name tool) result")
        case (Inl err)
        with Some em0 ex Inr Cons.prems show ?thesis by (auto simp: Let_def split: prod.splits)
      next
        case mar: (Inr data)
        obtain h1 messages1 where ap:
          "go_append (growslice rt) h messages [\<lparr>Role = RoleTool, Content = data\<rparr>] = (h1, messages1)"
          by fastforce
        obtain w2 e2 where em2: "emitEvent emit
            \<lparr>event_Type = EventTypeToolResult, event_Step = steps, event_Role = [],
             event_Content = [], event_Tool = tool_Name tool\<rparr> w1 e0 = (w2, e2)" by fastforce
        from go_append_wf_elems[OF Cons.prems(1) ap]
        have wf1: "validSlice h1 messages1"
          and el1: "elems h1 messages1 = elems h messages @ [\<lparr>Role = RoleTool, Content = data\<rparr>]"
          by simp_all
        from go_append_frame[OF Cons.prems(2,3) ap]
        have fr1: "prefix h0 h1" "freshFrom (length h0) messages1" by simp_all
        from Cons.prems(4) Some em0 ex Inr mar ap em2
        have rec: "runToolCalls rt cfg emit steps tcs messages1 h1 w2 e2 = (r, messages', h', w', e')"
          by simp
        from Cons.IH[OF wf1 fr1 rec] obtain added where
          a: "validSlice h' messages'" "prefix h0 h'" "freshFrom (length h0) messages'"
             "elems h' messages' = elems h1 messages1 @ added" "\<forall>m \<in> set added. Role m = RoleTool"
          by blast
        from a(4) el1 have "elems h' messages' =
            elems h messages @ (\<lparr>Role = RoleTool, Content = data\<rparr> # added)" by simp
        moreover from a(5) have "\<forall>m \<in> set (\<lparr>Role = RoleTool, Content = data\<rparr> # added). Role m = RoleTool"
          by simp
        ultimately show ?thesis using a(1-3) by blast
      qed
    qed
  qed
qed

declare agentLoop.simps [simp del]

lemma appendAssistant_inv:
  assumes "validSlice h messages" and "prefix h0 h" and "freshFrom (length h0) messages"
    and "appendAssistant rt emit steps res messages h w e = (h1, messages1, w1, e1)"
  shows "validSlice h1 messages1 \<and> prefix h0 h1 \<and> freshFrom (length h0) messages1 \<and>
         elems h1 messages1 =
           elems h messages @
           (if gt_Text res \<noteq> [] then [\<lparr>Role = RoleAssistant, Content = gt_Text res\<rparr>] else [])"
proof (cases "gt_Text res \<noteq> []")
  case True
  obtain h2 m2 where ap:
    "go_append (growslice rt) h messages [\<lparr>Role = RoleAssistant, Content = gt_Text res\<rparr>] = (h2, m2)"
    by fastforce
  with True assms(4) have eq: "h1 = h2" "messages1 = m2"
    by (auto simp: appendAssistant_def split: prod.splits)
  from go_append_wf_elems[OF assms(1) ap] go_append_frame[OF assms(2,3) ap] True eq
  show ?thesis by simp
next
  case False
  with assms show ?thesis by (simp add: appendAssistant_def)
qed

lemma agentLoop_inv:
  assumes "validSlice h messages" and "prefix h0 h" and "freshFrom (length h0) messages"
    and "agentLoop rt cfg emit maxSteps steps messages h w e = (r, h', w', e')"
  shows "prefix h0 h' \<and>
         (\<forall>res. r = Inr res \<longrightarrow>
            validSlice h' (Messages res) \<and>
            (\<exists>added. elems h' (Messages res) = elems h messages @ added \<and>
               (\<forall>m \<in> set added. Role m = RoleAssistant \<or> Role m = RoleTool)))"
  using assms
proof (induction "nat (maxSteps - steps)" arbitrary: steps messages h w e rule: less_induct)
  case less
  note run = less.prems(4)
  show ?case
  proof (cases "maxSteps \<le> steps")
    case True
    with run less.prems(2) show ?thesis
      by (auto simp: agentLoop.simps Let_def split: prod.splits)
  next
    case notmax: False
    obtain g w1 where gen: "GenerateTextWithRegistry (Registry cfg) (ModelName cfg)
        (agentRequest rt steps cfg (elems h messages)) w = (g, w1)" by fastforce
    show ?thesis
    proof (cases g)
      case (Inl err)
      with notmax gen run less.prems(2) show ?thesis
        by (auto simp: agentLoop.simps split: prod.splits)
    next
      case (Inr res)
      obtain h1 messages1 w2 e2 where aa:
        "appendAssistant rt emit steps res messages h w1 e = (h1, messages1, w2, e2)"
        by (metis prod_cases4)
      from appendAssistant_inv[OF less.prems(1,2,3) aa]
      have i1: "validSlice h1 messages1" "prefix h0 h1" "freshFrom (length h0) messages1"
        and el1: "elems h1 messages1 = elems h messages @
           (if gt_Text res \<noteq> [] then [\<lparr>Role = RoleAssistant, Content = gt_Text res\<rparr>] else [])"
        by simp_all
      show ?thesis
      proof (cases "gt_ToolCalls res = []")
        case True
        with notmax gen Inr aa run have "r = Inr \<lparr>Messages = messages1, FinalText = gt_Text res,
            Steps = steps\<rparr>" and "h' = h1"
          by (auto simp: agentLoop.simps split: prod.splits)
        with i1 el1 show ?thesis by auto
      next
        case calls: False
        obtain r2 messages2 h2 w3 e3 where rt:
          "runToolCalls rt cfg emit steps (gt_ToolCalls res) messages1 h1 w2 e2 =
           (r2, messages2, h2, w3, e3)" by (metis prod_cases5)
        from runToolCalls_inv[OF i1 rt] obtain added2 where
          i2: "validSlice h2 messages2" "prefix h0 h2" "freshFrom (length h0) messages2"
          and el2: "elems h2 messages2 = elems h1 messages1 @ added2"
          and ro2: "\<forall>m \<in> set added2. Role m = RoleTool"
          by blast
        show ?thesis
        proof (cases r2)
          case (Some err)
          with notmax gen Inr aa calls rt run i2 show ?thesis
            by (auto simp: agentLoop.simps)
        next
          case None
          with notmax gen Inr aa calls rt run
          have rec: "agentLoop rt cfg emit maxSteps (steps + 1) messages2 h2 w3 e3 = (r, h', w', e')"
            by (simp add: agentLoop.simps)
          from notmax have "nat (maxSteps - (steps + 1)) < nat (maxSteps - steps)" by simp
          from less.hyps[OF this i2 rec] have p: "prefix h0 h'"
            and rest: "\<forall>res. r = Inr res \<longrightarrow>
              validSlice h' (Messages res) \<and>
              (\<exists>added. elems h' (Messages res) = elems h2 messages2 @ added \<and>
                 (\<forall>m \<in> set added. Role m = RoleAssistant \<or> Role m = RoleTool))"
            by simp_all
          have "\<forall>res'. r = Inr res' \<longrightarrow>
              validSlice h' (Messages res') \<and>
              (\<exists>added. elems h' (Messages res') = elems h messages @ added \<and>
                 (\<forall>m \<in> set added. Role m = RoleAssistant \<or> Role m = RoleTool))"
          proof (intro allI impI)
            fix res' assume "r = Inr res'"
            with rest obtain added where v: "validSlice h' (Messages res')"
              and a: "elems h' (Messages res') = elems h2 messages2 @ added"
              and ro: "\<forall>m \<in> set added. Role m = RoleAssistant \<or> Role m = RoleTool"
              by blast
            let ?all = "(if gt_Text res \<noteq> [] then [\<lparr>Role = RoleAssistant, Content = gt_Text res\<rparr>]
                         else []) @ added2 @ added"
            have "elems h' (Messages res') = elems h messages @ ?all"
              using a el2 el1 by simp
            moreover have "\<forall>m \<in> set ?all. Role m = RoleAssistant \<or> Role m = RoleTool"
              using ro ro2 by auto
            ultimately show "validSlice h' (Messages res') \<and>
              (\<exists>added. elems h' (Messages res') = elems h messages @ added \<and>
                 (\<forall>m \<in> set added. Role m = RoleAssistant \<or> Role m = RoleTool))"
              using v by blast
          qed
          with p show ?thesis by simp
        qed
      qed
    qed
  qed
qed

text \<open>
  C10. Whatever a run returns, every array that existed when it started is in the heap
  with the elements it had (\<open>prefix h h'\<close>): the run writes only to arrays that it has
  allocated itself. So the caller's slice has the elements it had. When the run returns a
  Result, the elements of \<^verbatim>\<open>Result.Messages\<close> are the initial messages, in order, followed
  only by messages of role assistant or tool.
\<close>

theorem run_does_not_write_to_the_callers_slice:
  assumes "RunWithEvents rt cfg initialMessages emit h w e = (r, h', w', e')"
  shows "prefix h h' \<and>
         (validSlice h initialMessages \<longrightarrow>
            elems h' initialMessages = elems h initialMessages) \<and>
         (\<forall>res. r = Inr res \<longrightarrow>
            (\<exists>added. elems h' (Messages res) = elems h initialMessages @ added \<and>
               (\<forall>m \<in> set added. Role m = RoleAssistant \<or> Role m = RoleTool)))"
proof (cases "validate cfg")
  case (Some err)
  with assms show ?thesis by (auto simp: RunWithEvents_def)
next
  case None
  obtain h0 messages where cp:
    "go_append (growslice rt) h nilSlice (elems h initialMessages) = (h0, messages)"
    by fastforce
  from go_append_wf_elems[OF validSlice_nilSlice cp]
  have v: "validSlice h0 messages" and el: "elems h0 messages = elems h initialMessages"
    by (simp_all add: elems_nilSlice)
  from go_append_frame[OF prefix_order.refl freshFrom_nilSlice cp]
  have fr: "prefix h h0" "freshFrom (length h) messages" by simp_all
  from None cp assms
  have "agentLoop rt cfg emit (maxStepsOrDefault (MaxSteps cfg)) 0 messages h0 w e = (r, h', w', e')"
    by (simp add: RunWithEvents_def)
  from agentLoop_inv[OF v fr this] el
  have p: "prefix h h'" and res: "\<forall>res. r = Inr res \<longrightarrow>
            (\<exists>added. elems h' (Messages res) = elems h initialMessages @ added \<and>
               (\<forall>m \<in> set added. Role m = RoleAssistant \<or> Role m = RoleTool))"
    by simp_all
  from p have "validSlice h initialMessages \<longrightarrow>
      elems h' initialMessages = elems h initialMessages"
    by (auto simp: elems_def validSlice_def prefix_def nth_append split: option.splits)
  with p res show ?thesis by simp
qed

section \<open>Events and the outcome of a run\<close>

text \<open>
  An emitter is quiet when it leaves alone the state that the registry, the model and the
  tools work on: whatever it does, it does to state of its own.
\<close>

definition quiet :: "('w, 'e) EventEmitter \<Rightarrow> bool" where
  "quiet emit = (case emit of None \<Rightarrow> True | Some f \<Rightarrow> (\<forall>ev w e. fst (f ev w e) = w))"

lemma emitEvent_quiet:
  assumes "quiet emit" and "emitEvent emit ev w e = (w', e')"
  shows "w' = w"
  using assms by (auto simp: quiet_def emitEvent_def split: option.splits) (metis fst_conv)

lemma emitEvent_None: "emitEvent None ev w e = (w, e)"
  by (simp add: emitEvent_def)

lemma runToolCalls_emit:
  assumes "quiet emit"
  shows "runToolCalls rt cfg emit steps tcs messages h w e = (r, m', h', w', e') \<Longrightarrow>
   runToolCalls rt cfg (None :: ('w, unit) EventEmitter) steps tcs messages h w () =
     (r, m', h', w', ())"
proof (induction tcs arbitrary: messages h w e)
  case Nil
  then show ?case by simp
next
  case (Cons tc tcs)
  note q = emitEvent_quiet[OF assms]
  show ?case
  proof (cases "map_of (Tools cfg) (Name tc)")
    case None
    with Cons.prems q show ?thesis
      by (auto simp: Let_def emitEvent_None split: prod.splits dest: q)
  next
    case (Some tool)
    obtain w0 e0 where em0: "emitEvent emit
        \<lparr>event_Type = EventTypeToolStart, event_Step = steps, event_Role = [],
         event_Content = [], event_Tool = tool_Name tool\<rparr> w e = (w0, e0)" by fastforce
    from q[OF em0] have w0: "w0 = w" .
    obtain r1 w1 where ex: "Execute tool (RawArguments tc) w = (r1, w1)" by fastforce
    show ?thesis
    proof (cases r1)
      case (Inl err)
      with Some em0 w0 ex Cons.prems q show ?thesis
        by (auto simp: Let_def emitEvent_None split: prod.splits dest: q)
    next
      case (Inr result)
      show ?thesis
      proof (cases "Marshal rt (tool_Name tool) result")
        case (Inl err)
        with Some em0 w0 ex Inr Cons.prems q show ?thesis
          by (auto simp: Let_def emitEvent_None split: prod.splits dest: q)
      next
        case mar: (Inr data)
        obtain h1 messages1 where ap:
          "go_append (growslice rt) h messages [\<lparr>Role = RoleTool, Content = data\<rparr>] = (h1, messages1)"
          by fastforce
        obtain w2 e2 where em2: "emitEvent emit
            \<lparr>event_Type = EventTypeToolResult, event_Step = steps, event_Role = [],
             event_Content = [], event_Tool = tool_Name tool\<rparr> w1 e0 = (w2, e2)" by fastforce
        from q[OF em2] have w2: "w2 = w1" .
        from Cons.prems Some em0 w0 ex Inr mar ap em2 w2 have
          "runToolCalls rt cfg emit steps tcs messages1 h1 w1 e2 = (r, m', h', w', e')"
          by simp
        from Cons.IH[OF this] Some ex Inr mar ap show ?thesis
          by (simp add: emitEvent_None)
      qed
    qed
  qed
qed

lemma appendAssistant_emit:
  assumes "quiet emit"
    and "appendAssistant rt emit steps res messages h w e = (h1, m1, w1, e1)"
  shows "w1 = w \<and>
   appendAssistant rt (None :: ('w, unit) EventEmitter) steps res messages h w () =
     (h1, m1, w, ())"
  using assms(2)
  by (auto simp: appendAssistant_def emitEvent_None split: if_splits prod.splits
        dest: emitEvent_quiet[OF assms(1)])

lemma agentLoop_emit:
  assumes "quiet emit"
  shows "agentLoop rt cfg emit maxSteps steps messages h w e = (r, h', w', e') \<Longrightarrow>
   agentLoop rt cfg (None :: ('w, unit) EventEmitter) maxSteps steps messages h w () =
     (r, h', w', ())"
proof (induction "nat (maxSteps - steps)" arbitrary: steps messages h w e rule: less_induct)
  case less
  note run = less.prems
  note q = emitEvent_quiet[OF assms]
  show ?case
  proof (cases "maxSteps \<le> steps")
    case True
    with run q show ?thesis
      by (auto simp: agentLoop.simps Let_def emitEvent_None split: prod.splits dest: q)
  next
    case notmax: False
    obtain g w1 where gen: "GenerateTextWithRegistry (Registry cfg) (ModelName cfg)
        (agentRequest rt steps cfg (elems h messages)) w = (g, w1)" by fastforce
    show ?thesis
    proof (cases g)
      case (Inl err)
      with notmax gen run q show ?thesis
        by (auto simp: agentLoop.simps emitEvent_None split: prod.splits dest: q)
    next
      case (Inr res)
      obtain h1 messages1 w2 e2 where aa:
        "appendAssistant rt emit steps res messages h w1 e = (h1, messages1, w2, e2)"
        by (metis prod_cases4)
      from appendAssistant_emit[OF assms aa] have w2: "w2 = w1"
        and aa0: "appendAssistant rt (None :: ('w, unit) EventEmitter) steps res messages h w1 () =
                  (h1, messages1, w1, ())" by simp_all
      show ?thesis
      proof (cases "gt_ToolCalls res = []")
        case True
        with notmax gen Inr aa aa0 w2 run q show ?thesis
          by (auto simp: agentLoop.simps emitEvent_None split: prod.splits dest: q)
      next
        case calls: False
        obtain r2 messages2 h2 w3 e3 where rt:
          "runToolCalls rt cfg emit steps (gt_ToolCalls res) messages1 h1 w1 e2 =
           (r2, messages2, h2, w3, e3)" by (metis prod_cases5)
        note rt0 = runToolCalls_emit[OF assms rt]
        show ?thesis
        proof (cases r2)
          case (Some err)
          with notmax gen Inr aa aa0 w2 calls rt rt0 run show ?thesis
            by (auto simp: agentLoop.simps)
        next
          case None
          with notmax gen Inr aa w2 calls rt run
          have rec: "agentLoop rt cfg emit maxSteps (steps + 1) messages2 h2 w3 e3 = (r, h', w', e')"
            by (simp add: agentLoop.simps)
          from notmax have "nat (maxSteps - (steps + 1)) < nat (maxSteps - steps)" by simp
          from less.hyps[OF this rec] None notmax gen Inr aa0 calls rt0 show ?thesis
            by (simp add: agentLoop.simps[of rt cfg None maxSteps steps])
        qed
      qed
    qed
  qed
qed

text \<open>
  C9, as amended. For every configuration, initial messages and emitter that is quiet (the
  absent emitter is), \<^verbatim>\<open>RunWithEvents\<close> and \<^verbatim>\<open>Run\<close>, started in the same heap and state and
  under the same choices of the runtime, return the same Result or the same error and leave
  the same heap and the same state of registry, model and tools.
\<close>

theorem events_do_not_change_the_outcome:
  assumes "quiet emit"
  shows "(case RunWithEvents rt cfg initialMessages emit h w e of (r, h', w', e') \<Rightarrow> (r, h', w')) =
         Run rt cfg initialMessages h w"
proof (cases "validate cfg")
  case (Some err)
  then show ?thesis by (simp add: RunWithEvents_def Run_def)
next
  case None
  obtain h0 messages where cp:
    "go_append (growslice rt) h nilSlice (elems h initialMessages) = (h0, messages)"
    by fastforce
  obtain r h' w' e' where run:
    "agentLoop rt cfg emit (maxStepsOrDefault (MaxSteps cfg)) 0 messages h0 w e = (r, h', w', e')"
    by (metis prod_cases4)
  from agentLoop_emit[OF assms run] run None cp show ?thesis
    by (simp add: RunWithEvents_def Run_def)
qed

section \<open>What a run does, step by step\<close>

definition toolMessage :: "string \<Rightarrow> Message" where
  "toolMessage data = \<lparr>Role = RoleTool, Content = data\<rparr>"

definition assistantMessages :: "GenerateTextResponse \<Rightarrow> Message list" where
  "assistantMessages res =
     (if gt_Text res \<noteq> [] then [\<lparr>Role = RoleAssistant, Content = gt_Text res\<rparr>] else [])"

text \<open>The state after the emitter has been told of the assistant message, if there is one.\<close>

definition emitAssistant ::
  "('w, 'e) EventEmitter \<Rightarrow> int \<Rightarrow> GenerateTextResponse \<Rightarrow> 'w \<Rightarrow> 'e \<Rightarrow> 'w \<times> 'e" where
  "emitAssistant emit steps res w e =
     (if gt_Text res \<noteq> [] then
        emitEvent emit
          \<lparr>event_Type = EventTypeMessage, event_Step = steps, event_Role = RoleAssistant,
           event_Content = gt_Text res, event_Tool = []\<rparr> w e
      else (w, e))"

text \<open>
  A batch of tool calls goes through when each call names a configured tool, the tool
  returns without an error and its result is serialised without an error.
  \<open>toolResults\<close> is then the serialised results in the order of the calls and the state
  after the last call; it is \<open>None\<close> when some call does not go through. The calls run
  one after the other, each in the state that the one before it (and the emitter, told
  of its start and of its result) has left.
\<close>

fun toolResults ::
  "'r Runtime \<Rightarrow> ('w, 'r) Config \<Rightarrow> ('w, 'e) EventEmitter \<Rightarrow> int \<Rightarrow> ToolCall list \<Rightarrow>
   'w \<Rightarrow> 'e \<Rightarrow> (string list \<times> 'w \<times> 'e) option" where
  "toolResults rt cfg emit steps [] w e = Some ([], w, e)"
| "toolResults rt cfg emit steps (tc # tcs) w e =
     (case map_of (Tools cfg) (Name tc) of
        None \<Rightarrow> None
      | Some tool \<Rightarrow>
          (case emitEvent emit
                  \<lparr>event_Type = EventTypeToolStart, event_Step = steps, event_Role = [],
                   event_Content = [], event_Tool = tool_Name tool\<rparr> w e of
             (w0, e0) \<Rightarrow>
               (case Execute tool (RawArguments tc) w0 of
                  (Inl err, w1) \<Rightarrow> None
                | (Inr result, w1) \<Rightarrow>
                    (case Marshal rt (tool_Name tool) result of
                       Inl err \<Rightarrow> None
                     | Inr data \<Rightarrow>
                         (case emitEvent emit
                                 \<lparr>event_Type = EventTypeToolResult, event_Step = steps,
                                  event_Role = [], event_Content = [],
                                  event_Tool = tool_Name tool\<rparr> w1 e0 of
                            (w2, e2) \<Rightarrow>
                              (case toolResults rt cfg emit steps tcs w2 e2 of
                                 None \<Rightarrow> None
                               | Some (ds, w3, e3) \<Rightarrow> Some (data # ds, w3, e3)))))))"

text \<open>
  To count calls, the state is extended by two counters: a model wrapped by
  \<open>countGenerate\<close> adds one to the first each time its \<^verbatim>\<open>Generate\<close> is called, a tool
  wrapped by \<open>countTool\<close> adds one to the second each time its \<^verbatim>\<open>Execute\<close> is called.
  \<open>counted\<close> wraps the models of the registry and the tools of a configuration, and
  \<open>countedEmit\<close> lets an emitter work on the extended state without a view of the counters.
\<close>

definition countGenerate :: "'w LanguageModel \<Rightarrow> ('w \<times> nat \<times> nat) LanguageModel" where
  "countGenerate m req = (\<lambda>(w, g, x). case m req w of (r, w') \<Rightarrow> (r, (w', Suc g, x)))"

definition countExecute ::
  "(string \<Rightarrow> 'w \<Rightarrow> (error + 'r) \<times> 'w) \<Rightarrow>
   string \<Rightarrow> ('w \<times> nat \<times> nat) \<Rightarrow> (error + 'r) \<times> ('w \<times> nat \<times> nat)" where
  "countExecute f args = (\<lambda>(w, g, x). case f args w of (r, w') \<Rightarrow> (r, (w', g, Suc x)))"

definition countTool :: "('w, 'r) Tool \<Rightarrow> ('w \<times> nat \<times> nat, 'r) Tool" where
  "countTool t =
     \<lparr>tool_Name = tool_Name t, tool_Description = tool_Description t,
      tool_Parameters = tool_Parameters t, Execute = countExecute (Execute t)\<rparr>"

definition countedRegistry :: "'w Registry \<Rightarrow> ('w \<times> nat \<times> nat) Registry" where
  "countedRegistry reg name =
     (\<lambda>(w, g, x). case reg name w of
                     (Inl err, w') \<Rightarrow> (Inl err, (w', g, x))
                   | (Inr None, w') \<Rightarrow> (Inr None, (w', g, x))
                   | (Inr (Some m), w') \<Rightarrow> (Inr (Some (countGenerate m)), (w', g, x)))"

definition counted :: "('w, 'r) Config \<Rightarrow> ('w \<times> nat \<times> nat, 'r) Config" where
  "counted cfg =
     \<lparr>Registry = map_option countedRegistry (Registry cfg),
      ModelName = ModelName cfg,
      Tools = map (\<lambda>(k, t). (k, countTool t)) (Tools cfg),
      MaxSteps = MaxSteps cfg\<rparr>"

definition countedEmit :: "('w, 'e) EventEmitter \<Rightarrow> ('w \<times> nat \<times> nat, 'e) EventEmitter" where
  "countedEmit emit =
     map_option (\<lambda>f ev (w, g, x) e. case f ev w e of (w', e') \<Rightarrow> ((w', g, x), e')) emit"

lemma validate_counted: "validate (counted cfg) = validate cfg"
  by (simp add: validate_def counted_def split: option.splits)

lemma toolDefs_counted: "toolDefs rt steps (counted cfg) = toolDefs rt steps cfg"
  by (simp add: toolDefs_def counted_def countTool_def case_prod_unfold comp_def cong: if_cong)

lemma agentRequest_counted:
  "agentRequest rt steps (counted cfg) msgs =
     \<lparr>req_Model = None, req_Messages = msgs, req_Temperature = None, req_TopP = None,
      req_MaxTokens = None, req_Stop = [], req_JSONSchema = [],
      req_Tools = toolDefs rt steps cfg\<rparr>"
  by (simp add: agentRequest_def toolDefs_counted)

lemma map_of_map_values:
  "map_of (map (\<lambda>(k, t). (k, f t)) xs) k = map_option f (map_of xs k)"
  by (induction xs) auto

lemma map_of_counted:
  "map_of (Tools (counted cfg)) k = map_option countTool (map_of (Tools cfg) k)"
  by (simp add: counted_def map_of_map_values)

lemma emitEvent_counted:
  "emitEvent (countedEmit emit) ev (w, g, x) e =
     (case emitEvent emit ev w e of (w', e') \<Rightarrow> ((w', g, x), e'))"
  by (simp add: emitEvent_def countedEmit_def split: option.splits)

lemma emitAssistant_counted:
  "emitAssistant (countedEmit emit) steps res (w, g, x) e =
     (case emitAssistant emit steps res w e of (w', e') \<Rightarrow> ((w', g, x), e'))"
  by (simp add: emitAssistant_def emitEvent_counted)

lemma Generate_counted:
  assumes "GenerateTextWithRegistry (Registry cfg) (ModelName cfg)
             (agentRequest rt steps cfg msgs) w = (Inr res, w1)"
  shows "GenerateTextWithRegistry (Registry (counted cfg)) (ModelName (counted cfg))
           (agentRequest rt steps (counted cfg) msgs) (w, g, x) = (Inr res, (w1, Suc g, x))"
  using assms
  by (auto simp: GenerateTextWithRegistry_def GenerateText_def counted_def countedRegistry_def
        agentRequest_def countGenerate_def Let_def toolDefs_counted[unfolded counted_def]
      split: option.splits sum.splits prod.splits)

lemma toolResults_counted:
  "toolResults rt (counted cfg) (countedEmit emit) steps tcs (w, g, x) e =
     (case toolResults rt cfg emit steps tcs w e of
        None \<Rightarrow> None
      | Some (ds, w', e') \<Rightarrow> Some (ds, (w', g, x + length tcs), e'))"
proof (induction tcs arbitrary: w x e)
  case Nil
  then show ?case by simp
next
  case (Cons tc tcs)
  show ?case
  proof (cases "map_of (Tools cfg) (Name tc)")
    case None
    then show ?thesis by (simp add: map_of_counted)
  next
    case (Some tool)
    obtain w0 e0 where em0: "emitEvent emit
        \<lparr>event_Type = EventTypeToolStart, event_Step = steps, event_Role = [],
         event_Content = [], event_Tool = tool_Name tool\<rparr> w e = (w0, e0)" by fastforce
    obtain r1 w1 where ex: "Execute tool (RawArguments tc) w0 = (r1, w1)" by fastforce
    show ?thesis
    proof (cases r1)
      case (Inl err)
      with Some em0 ex show ?thesis
        by (simp add: map_of_counted countTool_def countExecute_def emitEvent_counted)
    next
      case (Inr result)
      show ?thesis
      proof (cases "Marshal rt (tool_Name tool) result")
        case (Inl err)
        with Some em0 ex Inr show ?thesis
          by (simp add: map_of_counted countTool_def countExecute_def emitEvent_counted)
      next
        case mar: (Inr data)
        obtain w2 e2 where em2: "emitEvent emit
            \<lparr>event_Type = EventTypeToolResult, event_Step = steps, event_Role = [],
             event_Content = [], event_Tool = tool_Name tool\<rparr> w1 e0 = (w2, e2)" by fastforce
        with Some em0 ex Inr mar show ?thesis
          by (simp add: map_of_counted countTool_def countExecute_def emitEvent_counted Cons.IH
                split: option.splits)
      qed
    qed
  qed
qed

lemma runToolCalls_success:
  assumes "toolResults rt cfg emit steps tcs w e = Some (ds, w', e')" and "validSlice h m"
    and "runToolCalls rt cfg emit steps tcs m h w e = (r, m', h', w'', e'')"
  shows "r = None \<and> w'' = w' \<and> e'' = e' \<and> validSlice h' m' \<and>
         elems h' m' = elems h m @ map toolMessage ds"
  using assms
proof (induction tcs arbitrary: ds w m h e)
  case Nil
  then show ?case by simp
next
  case (Cons tc tcs)
  from Cons.prems(1) obtain tool w0 e0 result w1 data w2 e2 ds' where
    look: "map_of (Tools cfg) (Name tc) = Some tool"
    and em0: "emitEvent emit
        \<lparr>event_Type = EventTypeToolStart, event_Step = steps, event_Role = [],
         event_Content = [], event_Tool = tool_Name tool\<rparr> w e = (w0, e0)"
    and ex: "Execute tool (RawArguments tc) w0 = (Inr result, w1)"
    and mar: "Marshal rt (tool_Name tool) result = Inr data"
    and em2: "emitEvent emit
            \<lparr>event_Type = EventTypeToolResult, event_Step = steps, event_Role = [],
             event_Content = [], event_Tool = tool_Name tool\<rparr> w1 e0 = (w2, e2)"
    and rest: "toolResults rt cfg emit steps tcs w2 e2 = Some (ds', w', e')"
    and ds: "ds = data # ds'"
    by (auto split: option.splits sum.splits prod.splits)
  obtain h1 m1 where ap:
    "go_append (growslice rt) h m [\<lparr>Role = RoleTool, Content = data\<rparr>] = (h1, m1)"
    by fastforce
  from go_append_wf_elems[OF Cons.prems(2) ap]
  have v1: "validSlice h1 m1" and el1: "elems h1 m1 = elems h m @ [toolMessage data]"
    by (simp_all add: toolMessage_def)
  from Cons.prems(3) look em0 ex mar ap em2 have
    rec: "runToolCalls rt cfg emit steps tcs m1 h1 w2 e2 = (r, m', h', w'', e'')"
    by simp
  from Cons.IH[OF rest v1 rec] el1 ds show ?case by simp
qed

text \<open>The error for a tool call whose name has no entry in the map of tools.\<close>

definition noToolError :: "'r Runtime \<Rightarrow> ToolCall \<Rightarrow> error" where
  "noToolError rt tc =
     UnsupportedFunctionalityError ''agent.tool''
       (''no tool registered with name '' @ Quote rt (Name tc))"

lemma runToolCalls_unknown:
  assumes "toolResults rt cfg emit steps pre w e = Some (ds, w', e')" and "validSlice h m"
    and "map_of (Tools cfg) (Name tc) = None"
    and "runToolCalls rt cfg emit steps (pre @ tc # post) m h w e = (r, m', h', w'', e'')"
  shows "r = Some (noToolError rt tc) \<and>
         (w'', e'') =
           emitEvent emit
             \<lparr>event_Type = EventTypeError, event_Step = steps, event_Role = [],
              event_Content = Error (noToolError rt tc), event_Tool = Name tc\<rparr> w' e' \<and>
         elems h' m' = elems h m @ map toolMessage ds"
  using assms
proof (induction pre arbitrary: ds w m h e)
  case Nil
  then show ?case by (auto simp: Let_def noToolError_def split: prod.splits)
next
  case (Cons p pre)
  from Cons.prems(1) obtain tool w0 e0 result w1 data w2 e2 ds' where
    look: "map_of (Tools cfg) (Name p) = Some tool"
    and em0: "emitEvent emit
        \<lparr>event_Type = EventTypeToolStart, event_Step = steps, event_Role = [],
         event_Content = [], event_Tool = tool_Name tool\<rparr> w e = (w0, e0)"
    and ex: "Execute tool (RawArguments p) w0 = (Inr result, w1)"
    and mar: "Marshal rt (tool_Name tool) result = Inr data"
    and em2: "emitEvent emit
            \<lparr>event_Type = EventTypeToolResult, event_Step = steps, event_Role = [],
             event_Content = [], event_Tool = tool_Name tool\<rparr> w1 e0 = (w2, e2)"
    and rest: "toolResults rt cfg emit steps pre w2 e2 = Some (ds', w', e')"
    and ds: "ds = data # ds'"
    by (auto split: option.splits sum.splits prod.splits)
  obtain h1 m1 where ap:
    "go_append (growslice rt) h m [\<lparr>Role = RoleTool, Content = data\<rparr>] = (h1, m1)"
    by fastforce
  from go_append_wf_elems[OF Cons.prems(2) ap]
  have v1: "validSlice h1 m1" and el1: "elems h1 m1 = elems h m @ [toolMessage data]"
    by (simp_all add: toolMessage_def)
  from Cons.prems(4) look em0 ex mar ap em2 have
    rec: "runToolCalls rt cfg emit steps (pre @ tc # post) m1 h1 w2 e2 = (r, m', h', w'', e'')"
    by simp
  from Cons.IH[OF rest v1 Cons.prems(3) rec] el1 ds show ?case by simp
qed

lemma runToolCalls_some_unknown:
  assumes "\<exists>tc \<in> set tcs. map_of (Tools cfg) (Name tc) = None"
  shows "fst (runToolCalls rt cfg emit steps tcs m h w e) \<noteq> None"
  using assms
proof (induction tcs arbitrary: m h w e)
  case Nil
  then show ?case by simp
next
  case (Cons tc tcs)
  show ?case
  proof (cases "map_of (Tools cfg) (Name tc)")
    case None
    then show ?thesis by (simp add: Let_def split: prod.splits)
  next
    case (Some tool)
    with Cons.prems have later: "\<exists>tc \<in> set tcs. map_of (Tools cfg) (Name tc) = None" by auto
    show ?thesis
      using Some Cons.IH[OF later]
      by (auto simp: Let_def split: prod.splits sum.splits)
  qed
qed

lemma validSlice_any_origin: "prefix [] h" "freshFrom (length []) m"
  by (simp_all add: freshFrom_def split: option.splits)

lemma appendAssistant_elems:
  assumes "validSlice h m" and "appendAssistant rt emit steps res m h w e = (h1, m1, w1, e1)"
  shows "validSlice h1 m1 \<and> elems h1 m1 = elems h m @ assistantMessages res \<and>
         (w1, e1) = emitAssistant emit steps res w e"
proof -
  from assms(2) have "(w1, e1) = emitAssistant emit steps res w e"
    by (auto simp: appendAssistant_def emitAssistant_def split: if_splits prod.splits)
  with appendAssistant_inv[OF assms(1) validSlice_any_origin assms(2)]
  show ?thesis by (simp add: assistantMessages_def)
qed

lemma agentLoop_tools_step:
  assumes "steps < maxSteps" and "validSlice h m"
    and "GenerateTextWithRegistry (Registry cfg) (ModelName cfg)
           (agentRequest rt steps cfg (elems h m)) w = (Inr res, w1)"
    and "gt_ToolCalls res \<noteq> []"
    and "emitAssistant emit steps res w1 e = (w1', e1)"
    and "toolResults rt cfg emit steps (gt_ToolCalls res) w1' e1 = Some (ds, w2, e2)"
  shows "\<exists>h2 m2.
           agentLoop rt cfg emit maxSteps steps m h w e =
             agentLoop rt cfg emit maxSteps (steps + 1) m2 h2 w2 e2 \<and>
           validSlice h2 m2 \<and>
           elems h2 m2 = elems h m @ assistantMessages res @ map toolMessage ds"
proof -
  obtain h1 m1 wa ea where aa: "appendAssistant rt emit steps res m h w1 e = (h1, m1, wa, ea)"
    by (metis prod_cases4)
  from appendAssistant_elems[OF assms(2) aa] assms(5)
  have v1: "validSlice h1 m1" and el1: "elems h1 m1 = elems h m @ assistantMessages res"
    and st: "wa = w1'" "ea = e1"
    by simp_all
  obtain r2 m2 h2 w2' e2' where run:
    "runToolCalls rt cfg emit steps (gt_ToolCalls res) m1 h1 w1' e1 = (r2, m2, h2, w2', e2')"
    by (metis prod_cases5)
  from runToolCalls_success[OF assms(6) v1 run]
  have r2: "r2 = None" "w2' = w2" "e2' = e2" and v2: "validSlice h2 m2"
    and el2: "elems h2 m2 = elems h1 m1 @ map toolMessage ds"
    by simp_all
  from assms(1,3,4) aa st run r2
  have "agentLoop rt cfg emit maxSteps steps m h w e =
        agentLoop rt cfg emit maxSteps (steps + 1) m2 h2 w2 e2"
    by (simp add: agentLoop.simps[of rt cfg emit maxSteps steps])
  with v2 el2 el1 show ?thesis by auto
qed

lemma agentLoop_final_step:
  assumes "steps < maxSteps" and "validSlice h m"
    and "GenerateTextWithRegistry (Registry cfg) (ModelName cfg)
           (agentRequest rt steps cfg (elems h m)) w = (Inr res, w1)"
    and "gt_ToolCalls res = []"
    and "emitAssistant emit steps res w1 e = (w1', e1)"
    and "emitEvent emit \<lparr>event_Type = EventTypeDone, event_Step = steps, event_Role = [],
                         event_Content = [], event_Tool = []\<rparr> w1' e1 = (w2, e2)"
  shows "\<exists>h1 m1.
           agentLoop rt cfg emit maxSteps steps m h w e =
             (Inr \<lparr>Messages = m1, FinalText = gt_Text res, Steps = steps\<rparr>, h1, w2, e2) \<and>
           elems h1 m1 = elems h m @ assistantMessages res"
proof -
  obtain h1 m1 wa ea where aa: "appendAssistant rt emit steps res m h w1 e = (h1, m1, wa, ea)"
    by (metis prod_cases4)
  from appendAssistant_elems[OF assms(2) aa] assms(5)
  have el1: "elems h1 m1 = elems h m @ assistantMessages res" and st: "wa = w1'" "ea = e1"
    by simp_all
  from assms(1,3,4,6) aa st
  have "agentLoop rt cfg emit maxSteps steps m h w e =
        (Inr \<lparr>Messages = m1, FinalText = gt_Text res, Steps = steps\<rparr>, h1, w2, e2)"
    by (simp add: agentLoop.simps[of rt cfg emit maxSteps steps])
  with el1 show ?thesis by blast
qed

lemma agentLoop_unknown_step:
  assumes "steps < maxSteps" and "validSlice h m"
    and "GenerateTextWithRegistry (Registry cfg) (ModelName cfg)
           (agentRequest rt steps cfg (elems h m)) w = (Inr res, w1)"
    and "gt_ToolCalls res = pre @ tc # post"
    and "map_of (Tools cfg) (Name tc) = None"
    and "appendAssistant rt emit steps res m h w1 e = (h1, m1, w1', e1)"
    and "toolResults rt cfg emit steps pre w1' e1 = Some (ds, w2, e2)"
  shows "\<exists>m' h' w' e'.
           runToolCalls rt cfg emit steps (gt_ToolCalls res) m1 h1 w1' e1 =
             (Some (noToolError rt tc), m', h', w', e') \<and>
           elems h' m' = elems h1 m1 @ map toolMessage ds \<and>
           agentLoop rt cfg emit maxSteps steps m h w e = (Inl (noToolError rt tc), h', w', e')"
proof -
  from appendAssistant_elems[OF assms(2,6)] have v1: "validSlice h1 m1" by simp
  obtain r2 m2 h2 w2' e2' where run:
    "runToolCalls rt cfg emit steps (pre @ tc # post) m1 h1 w1' e1 = (r2, m2, h2, w2', e2')"
    by (metis prod_cases5)
  from runToolCalls_unknown[OF assms(7) v1 assms(5) run]
  have r2: "r2 = Some (noToolError rt tc)"
    and el2: "elems h2 m2 = elems h1 m1 @ map toolMessage ds"
    by simp_all
  from assms(1,3,4,6) run r2
  have "agentLoop rt cfg emit maxSteps steps m h w e = (Inl (noToolError rt tc), h2, w2', e2')"
    by (simp add: agentLoop.simps[of rt cfg emit maxSteps steps])
  with run r2 el2 assms(4) show ?thesis by auto
qed

lemma agentLoop_some_unknown:
  assumes "steps < maxSteps"
    and "GenerateTextWithRegistry (Registry cfg) (ModelName cfg)
           (agentRequest rt steps cfg (elems h m)) w = (Inr res, w1)"
    and "\<exists>tc \<in> set (gt_ToolCalls res). map_of (Tools cfg) (Name tc) = None"
  shows "\<exists>err h' w' e'. agentLoop rt cfg emit maxSteps steps m h w e = (Inl err, h', w', e')"
proof -
  obtain h1 m1 wa ea where aa: "appendAssistant rt emit steps res m h w1 e = (h1, m1, wa, ea)"
    by (metis prod_cases4)
  obtain r2 m2 h2 w2 e2 where run:
    "runToolCalls rt cfg emit steps (gt_ToolCalls res) m1 h1 wa ea = (r2, m2, h2, w2, e2)"
    by (metis prod_cases5)
  from runToolCalls_some_unknown[OF assms(3), of rt emit steps m1 h1 wa ea] run
  obtain err where r2: "r2 = Some err" by auto
  from assms(3) have ne: "gt_ToolCalls res \<noteq> []" by auto
  from assms(1,2) aa run r2 ne
  have "agentLoop rt cfg emit maxSteps steps m h w e = (Inl err, h2, w2, e2)"
    by (simp add: agentLoop.simps[of rt cfg emit maxSteps steps])
  then show ?thesis by blast
qed

text \<open>
  C6, as amended. Take an iteration of the loop whose reasoning call returns a batch of
  tool calls. If some call of the batch names a tool that is not configured, the run
  returns an error and no Result. If \<open>tc\<close> is the first such call and the calls \<open>pre\<close>
  before it go through, the error is the one for \<open>tc\<close>, and when the run returns, the
  history is what it was when the batch started followed by one tool message for each call
  of \<open>pre\<close>: the calls before the unregistered one have been executed and their results
  appended. The history is as it was when the batch started if \<open>tc\<close> is the first call of
  the batch.
\<close>

theorem unregistered_tool_aborts_the_run:
  "(steps < maxSteps \<and>
    GenerateTextWithRegistry (Registry cfg) (ModelName cfg)
      (agentRequest rt steps cfg (elems h m)) w = (Inr res, w1) \<and>
    (\<exists>tc \<in> set (gt_ToolCalls res). map_of (Tools cfg) (Name tc) = None)
    \<longrightarrow> (\<exists>err h' w' e'. agentLoop rt cfg emit maxSteps steps m h w e = (Inl err, h', w', e')))
   \<and>
   (steps < maxSteps \<and> validSlice h m \<and>
    GenerateTextWithRegistry (Registry cfg) (ModelName cfg)
      (agentRequest rt steps cfg (elems h m)) w = (Inr res, w1) \<and>
    gt_ToolCalls res = pre @ tc # post \<and> map_of (Tools cfg) (Name tc) = None \<and>
    appendAssistant rt emit steps res m h w1 e = (h1, m1, w1', e1) \<and>
    toolResults rt cfg emit steps pre w1' e1 = Some (ds, w2, e2)
    \<longrightarrow> (\<exists>m' h' w' e'.
           runToolCalls rt cfg emit steps (gt_ToolCalls res) m1 h1 w1' e1 =
             (Some (noToolError rt tc), m', h', w', e') \<and>
           elems h' m' = elems h1 m1 @ map toolMessage ds \<and>
           length ds = length pre \<and>
           agentLoop rt cfg emit maxSteps steps m h w e =
             (Inl (noToolError rt tc), h', w', e')))"
proof -
  have len: "toolResults rt cfg emit steps pre w1' e1 = Some (ds, w2, e2) \<Longrightarrow>
             length ds = length pre"
    by (induction pre arbitrary: ds w1' e1)
       (auto split: option.splits prod.splits sum.splits)
  show ?thesis
    using agentLoop_some_unknown[of steps maxSteps cfg rt h m w res w1 emit e]
      agentLoop_unknown_step[of steps maxSteps h m cfg rt w res w1 pre tc post emit e h1 m1
        w1' e1 ds w2 e2] len
    by blast
qed

text \<open>The error of a run that has used up its steps.\<close>

definition maxStepsError :: "int \<Rightarrow> error" where
  "maxStepsError n =
     UnsupportedFunctionalityError ''agent.maxSteps''
       (''maximum steps ('' @ Itoa n @ '') exceeded'')"

text \<open>
  The model keeps calling tools: whatever the step, the history and the state, the
  reasoning call returns a response with at least one tool call, and the batch goes
  through.
\<close>

definition keepsCallingTools ::
  "'r Runtime \<Rightarrow> ('w, 'r) Config \<Rightarrow> ('w, 'e) EventEmitter \<Rightarrow> bool" where
  "keepsCallingTools rt cfg emit =
     (\<forall>steps msgs w e. \<exists>res w1 w1' e1 ds w2 e2.
        GenerateTextWithRegistry (Registry cfg) (ModelName cfg)
          (agentRequest rt steps cfg msgs) w = (Inr res, w1) \<and>
        gt_ToolCalls res \<noteq> [] \<and>
        emitAssistant emit steps res w1 e = (w1', e1) \<and>
        toolResults rt cfg emit steps (gt_ToolCalls res) w1' e1 = Some (ds, w2, e2))"

lemma agentLoop_keeps_calling:
  assumes "keepsCallingTools rt cfg emit" and "steps \<le> n" and "validSlice h m"
  shows "\<exists>h' w' x' e'.
           agentLoop rt (counted cfg) (countedEmit emit) n steps m h (w, g, x) e =
             (Inl (maxStepsError n), h', (w', g + nat (n - steps), x'), e') \<and>
           x + nat (n - steps) \<le> x'"
  using assms(2,3)
proof (induction "nat (n - steps)" arbitrary: steps m h w g x e rule: less_induct)
  case less
  show ?case
  proof (cases "steps = n")
    case True
    then show ?thesis
      by (auto simp: agentLoop.simps[of rt "counted cfg" "countedEmit emit" n n] maxStepsError_def
            Let_def emitEvent_counted split: prod.splits)
  next
    case False
    with less.prems(1) have lt: "steps < n" by simp
    from assms(1) obtain res w1 w1' e1 ds w2 e2 where
      gen: "GenerateTextWithRegistry (Registry cfg) (ModelName cfg)
              (agentRequest rt steps cfg (elems h m)) w = (Inr res, w1)"
      and ne: "gt_ToolCalls res \<noteq> []"
      and ea: "emitAssistant emit steps res w1 e = (w1', e1)"
      and tr: "toolResults rt cfg emit steps (gt_ToolCalls res) w1' e1 = Some (ds, w2, e2)"
      unfolding keepsCallingTools_def by blast
    have gen': "GenerateTextWithRegistry (Registry (counted cfg)) (ModelName (counted cfg))
              (agentRequest rt steps (counted cfg) (elems h m)) (w, g, x) =
              (Inr res, (w1, Suc g, x))"
      by (rule Generate_counted[OF gen])
    have ea': "emitAssistant (countedEmit emit) steps res (w1, Suc g, x) e =
               ((w1', Suc g, x), e1)"
      by (simp add: emitAssistant_counted ea)
    have tr': "toolResults rt (counted cfg) (countedEmit emit) steps (gt_ToolCalls res)
                 (w1', Suc g, x) e1 =
               Some (ds, (w2, Suc g, x + length (gt_ToolCalls res)), e2)"
      by (simp add: toolResults_counted tr)
    from agentLoop_tools_step[OF lt less.prems(2) gen' ne ea' tr']
    obtain h2 m2 where
      step: "agentLoop rt (counted cfg) (countedEmit emit) n steps m h (w, g, x) e =
             agentLoop rt (counted cfg) (countedEmit emit) n (steps + 1) m2 h2
               (w2, Suc g, x + length (gt_ToolCalls res)) e2"
      and v2: "validSlice h2 m2"
      by blast
    from lt have m: "nat (n - (steps + 1)) < nat (n - steps)" and le: "steps + 1 \<le> n"
      by simp_all
    from less.hyps[OF m le v2, of w2 "Suc g" "x + length (gt_ToolCalls res)" e2]
    obtain h' w' x' e' where
      rec: "agentLoop rt (counted cfg) (countedEmit emit) n (steps + 1) m2 h2
              (w2, Suc g, x + length (gt_ToolCalls res)) e2 =
            (Inl (maxStepsError n), h', (w', Suc g + nat (n - (steps + 1)), x'), e')"
      and xs: "x + length (gt_ToolCalls res) + nat (n - (steps + 1)) \<le> x'"
      by blast
    from lt have g: "Suc g + nat (n - (steps + 1)) = g + nat (n - steps)" by simp
    from ne have "1 \<le> length (gt_ToolCalls res)" by (cases "gt_ToolCalls res") simp_all
    with xs lt have "x + nat (n - steps) \<le> x'" by simp
    with step rec g show ?thesis by simp
  qed
qed

text \<open>
  C3, as amended. Let the configuration pass validation and have \<^verbatim>\<open>MaxSteps\<close> \<open>n \<ge> 1\<close>,
  and let every reasoning call return at least one tool call, with batches that go through:
  every call names a configured tool that returns no error and a result that is serialised
  without error. Then the run returns the error \<^verbatim>\<open>maximum steps (n) exceeded\<close> and no
  Result, after exactly \<open>n\<close> reasoning calls and at least \<open>n\<close> tool executions.
\<close>

theorem max_steps_exceeded:
  assumes "MaxSteps cfg = n" and "1 \<le> n" and "validate cfg = None"
    and "keepsCallingTools rt cfg emit"
  shows "\<exists>h' w' x' e'.
           RunWithEvents rt (counted cfg) initialMessages (countedEmit emit) h (w, 0, 0) e =
             (Inl (UnsupportedFunctionalityError ''agent.maxSteps''
                     (''maximum steps ('' @ Itoa n @ '') exceeded'')),
              h', (w', nat n, x'), e') \<and>
           nat n \<le> x'"
proof -
  obtain h0 messages where cp:
    "go_append (growslice rt) h nilSlice (elems h initialMessages) = (h0, messages)"
    by fastforce
  from go_append_wf_elems[OF validSlice_nilSlice cp] have v: "validSlice h0 messages" by simp
  from assms(1,2) have ms: "maxStepsOrDefault (MaxSteps (counted cfg)) = n"
    by (simp add: maxStepsOrDefault_def counted_def)
  from assms(2) have "0 \<le> n" by simp
  from agentLoop_keeps_calling[OF assms(4) this v, of w 0 0 e]
  obtain h' w' x' e' where
    "agentLoop rt (counted cfg) (countedEmit emit) n 0 messages h0 (w, 0, 0) e =
       (Inl (maxStepsError n), h', (w', nat n, x'), e')" and "nat n \<le> x'"
    by auto
  with cp ms assms(3) show ?thesis
    by (simp add: RunWithEvents_def validate_counted maxStepsError_def)
qed

text \<open>
  C2, as amended. Let the configuration pass validation and \<^verbatim>\<open>MaxSteps\<close> not be 1. If the
  first reasoning call returns exactly one tool call, for a configured tool that returns no
  error and a result that is serialised without error, and the second reasoning call (on
  the history with the first assistant message, if any, and the tool message) returns no
  tool call, then the run performs exactly 2 reasoning calls and exactly 1 tool execution
  and returns a Result with \<open>Steps = 1\<close>, the text of the second response as final text, and
  that history followed by the second assistant message, if any.
\<close>

theorem one_tool_call_then_answer:
  assumes "validate cfg = None" and "MaxSteps cfg \<noteq> 1"
    and "GenerateTextWithRegistry (Registry cfg) (ModelName cfg)
           (agentRequest rt 0 cfg (elems h initialMessages)) w0 = (Inr res1, w1)"
    and "gt_ToolCalls res1 = [tc]"
    and "emitAssistant emit 0 res1 w1 e = (w1', e1)"
    and "toolResults rt cfg emit 0 [tc] w1' e1 = Some ([data], w2, e2)"
    and "GenerateTextWithRegistry (Registry cfg) (ModelName cfg)
           (agentRequest rt 1 cfg
              (elems h initialMessages @ assistantMessages res1 @ [toolMessage data])) w2 =
         (Inr res2, w3)"
    and "gt_ToolCalls res2 = []"
  shows "\<exists>res h' w' e'.
           RunWithEvents rt (counted cfg) initialMessages (countedEmit emit) h (w0, 0, 0) e =
             (Inr res, h', (w', 2, 1), e') \<and>
           Steps res = 1 \<and> FinalText res = gt_Text res2 \<and>
           elems h' (Messages res) =
             elems h initialMessages @ assistantMessages res1 @ [toolMessage data] @
             assistantMessages res2"
proof -
  let ?n = "maxStepsOrDefault (MaxSteps cfg)"
  let ?emit = "countedEmit emit"
  obtain h0 messages where cp:
    "go_append (growslice rt) h nilSlice (elems h initialMessages) = (h0, messages)"
    by fastforce
  from go_append_wf_elems[OF validSlice_nilSlice cp]
  have v0: "validSlice h0 messages" and el0: "elems h0 messages = elems h initialMessages"
    by (simp_all add: elems_nilSlice)
  have ms: "maxStepsOrDefault (MaxSteps (counted cfg)) = ?n" by (simp add: counted_def)
  from assms(2) have lt0: "(0::int) < ?n" and lt1: "(0::int) + 1 < ?n"
    by (simp_all add: maxStepsOrDefault_def)
  have gen1: "GenerateTextWithRegistry (Registry (counted cfg)) (ModelName (counted cfg))
      (agentRequest rt 0 (counted cfg) (elems h0 messages)) (w0, 0, 0) =
      (Inr res1, (w1, Suc 0, 0))"
    using Generate_counted[OF assms(3), of 0 0] el0 by simp
  have ea1: "emitAssistant ?emit 0 res1 (w1, Suc 0, 0) e = ((w1', Suc 0, 0), e1)"
    by (simp add: emitAssistant_counted assms(5))
  have tr1: "toolResults rt (counted cfg) ?emit 0 (gt_ToolCalls res1) (w1', Suc 0, 0) e1 =
             Some ([data], (w2, Suc 0, 0 + length (gt_ToolCalls res1)), e2)"
    using assms(4,6) toolResults_counted[of rt cfg emit 0 "gt_ToolCalls res1" w1' "Suc 0" 0 e1]
    by (simp del: toolResults.simps)
  from assms(4) have ne: "gt_ToolCalls res1 \<noteq> []" by simp
  from agentLoop_tools_step[OF lt0 v0 gen1 ne ea1 tr1]
  obtain h2 m2 where
    step1: "agentLoop rt (counted cfg) ?emit ?n 0 messages h0 (w0, 0, 0) e =
            agentLoop rt (counted cfg) ?emit ?n (0 + 1) m2 h2 (w2, Suc 0, Suc 0) e2"
    and v2: "validSlice h2 m2"
    and el2: "elems h2 m2 = elems h initialMessages @ assistantMessages res1 @ [toolMessage data]"
    using assms(4) el0 by auto
  have gen2: "GenerateTextWithRegistry (Registry (counted cfg)) (ModelName (counted cfg))
      (agentRequest rt (0 + 1) (counted cfg) (elems h2 m2)) (w2, Suc 0, Suc 0) =
      (Inr res2, (w3, Suc (Suc 0), Suc 0))"
    using Generate_counted[OF assms(7), of "Suc 0" "Suc 0"] el2 by simp
  obtain w3' e3 where ea2: "emitAssistant emit (0 + 1) res2 w3 e2 = (w3', e3)" by fastforce
  obtain w4 e4 where dn: "emitEvent emit \<lparr>event_Type = EventTypeDone, event_Step = 0 + 1,
      event_Role = [], event_Content = [], event_Tool = []\<rparr> w3' e3 = (w4, e4)" by fastforce
  have ea2': "emitAssistant ?emit (0 + 1) res2 (w3, Suc (Suc 0), Suc 0) e2 =
              ((w3', Suc (Suc 0), Suc 0), e3)"
    using ea2 by (simp add: emitAssistant_counted)
  have dn': "emitEvent ?emit \<lparr>event_Type = EventTypeDone, event_Step = 0 + 1,
      event_Role = [], event_Content = [], event_Tool = []\<rparr> (w3', Suc (Suc 0), Suc 0) e3 =
      ((w4, Suc (Suc 0), Suc 0), e4)"
    using dn by (simp add: emitEvent_counted)
  from agentLoop_final_step[OF lt1 v2 gen2 assms(8) ea2' dn']
  obtain h3 m3 where
    step2: "agentLoop rt (counted cfg) ?emit ?n (0 + 1) m2 h2 (w2, Suc 0, Suc 0) e2 =
            (Inr \<lparr>Messages = m3, FinalText = gt_Text res2, Steps = 0 + 1\<rparr>, h3,
             (w4, Suc (Suc 0), Suc 0), e4)"
    and el3: "elems h3 m3 = elems h2 m2 @ assistantMessages res2"
    by blast
  have "RunWithEvents rt (counted cfg) initialMessages ?emit h (w0, 0, 0) e =
        (Inr \<lparr>Messages = m3, FinalText = gt_Text res2, Steps = 1\<rparr>, h3, (w4, 2, 1), e4)"
    using cp ms assms(1) step1 step2
    by (simp add: RunWithEvents_def validate_counted numeral_2_eq_2)
  with el3 el2 show ?thesis by simp
qed

section \<open>Example runs\<close>

text \<open>
  Tools that return a number. \<^verbatim>\<open>json.Marshal\<close> writes the keys of a map in sorted
  order, and refuses a floating point value that is not a number.
\<close>

datatype toolValue = Number int | NaN

definition quoted :: "string \<Rightarrow> string" where
  "quoted s = CHR 0x22 # s @ [CHR 0x22]"

definition exampleRuntime :: "toolValue Runtime" where
  "exampleRuntime =
     \<lparr>Marshal = (\<lambda>tool result.
         case result of
           Number i \<Rightarrow>
             Inr (''{'' @ quoted ''result'' @ '':'' @ Itoa i @ '','' @ quoted ''tool'' @ '':'' @
                  quoted tool @ ''}'')
         | NaN \<Rightarrow> Inl (GoError ''json: unsupported value: NaN'' [] None [])),
      Quote = quoted,
      growslice = (\<lambda>old needed. 2 * needed),
      rangeOrder = (\<lambda>steps defs. rotate (nat steps) defs)\<rparr>"

definition addCall :: ToolCall where
  "addCall = \<lparr>ID = ''call_1'', Name = ''add'', RawArguments = ''[2,3]''\<rparr>"

definition lookupCall :: ToolCall where
  "lookupCall = \<lparr>ID = ''call_2'', Name = ''lookup'', RawArguments = ''[]''\<rparr>"

definition sqrtCall :: ToolCall where
  "sqrtCall = \<lparr>ID = ''call_3'', Name = ''sqrt'', RawArguments = ''[-1]''\<rparr>"

definition addTool :: "(nat, toolValue) Tool" where
  "addTool =
     \<lparr>tool_Name = ''add'', tool_Description = ''adds two numbers'', tool_Parameters = [],
      Execute = (\<lambda>args w. (Inr (Number 5), w))\<rparr>"

definition sqrtTool :: "(nat, toolValue) Tool" where
  "sqrtTool =
     \<lparr>tool_Name = ''sqrt'', tool_Description = ''square root'', tool_Parameters = [],
      Execute = (\<lambda>args w. (Inr NaN, w))\<rparr>"

text \<open>
  Models whose state is the number of the turn of the conversation they are at: each
  call moves one turn on. \<open>toolThenAnswer\<close> asks for a tool at turn 0 and answers
  after it.
\<close>

definition toolThenAnswer :: "nat LanguageModel" where
  "toolThenAnswer req n =
     (if n = 0
      then Inr \<lparr>resp_Text = [], resp_StopReason = ''tool_calls'', resp_ToolCalls = [addCall]\<rparr>
      else Inr \<lparr>resp_Text = ''5'', resp_StopReason = ''stop'', resp_ToolCalls = []\<rparr>,
      Suc n)"

definition alwaysCalls :: "ToolCall list \<Rightarrow> nat LanguageModel" where
  "alwaysCalls tcs req n =
     (Inr \<lparr>resp_Text = [], resp_StopReason = ''tool_calls'', resp_ToolCalls = tcs\<rparr>, Suc n)"

definition exampleRegistry :: "nat LanguageModel \<Rightarrow> nat Registry" where
  "exampleRegistry m name w =
     (if name = ''model'' then Inr (Some m)
      else Inl (ErrorString ''registry: no such language model''), w)"

definition exampleConfig :: "nat LanguageModel \<Rightarrow> int \<Rightarrow> (nat, toolValue) Config" where
  "exampleConfig m k =
     \<lparr>Registry = Some (exampleRegistry m), ModelName = ''model'',
      Tools = [(''add'', addTool), (''sqrt'', sqrtTool)], MaxSteps = k\<rparr>"

text \<open>
  The caller's slice: one message, in an array with room for a second. An
  \<^verbatim>\<open>append\<close> to this slice itself would write into the array.
\<close>

definition exampleHeap :: heap where
  "exampleHeap = [[\<lparr>Role = ''user'', Content = ''2+3?''\<rparr>, zeroMessage]]"

definition exampleInitial :: slice where
  "exampleInitial = \<lparr>arr = Some 0, off = 0, len = 1, cap = 2\<rparr>"

text \<open>An emitter that keeps a log of the events, and one that takes the model back to turn 0.\<close>

definition recordEvents :: "(nat, Event list) EventEmitter" where
  "recordEvents = Some (\<lambda>ev w log. (w, log @ [ev]))"

definition rewindModel :: "(nat, Event list) EventEmitter" where
  "rewindModel = Some (\<lambda>ev w log. (0, log @ [ev]))"

definition addResult :: string where
  "addResult = ''{'' @ quoted ''result'' @ '':5,'' @ quoted ''tool'' @ '':'' @ quoted ''add'' @ ''}''"

lemma Itoa_examples: "Itoa 1 = ''1''" "Itoa 3 = ''3''" "Itoa 5 = ''5''"
  by code_simp+

lemma exampleSlice_valid: "validSlice exampleHeap exampleInitial"
  by (simp add: validSlice_def exampleHeap_def exampleInitial_def)

lemma exampleSlice_elems:
  "elems exampleHeap exampleInitial = [\<lparr>Role = ''user'', Content = ''2+3?''\<rparr>]"
  by (simp add: elems_def exampleHeap_def exampleInitial_def)

lemma example_validate: "validate (exampleConfig m k) = None"
  by (simp add: validate_def exampleConfig_def)

lemma quiet_recordEvents: "quiet recordEvents"
  by (simp add: quiet_def recordEvents_def)

lemma emitEvent_recordEvents: "emitEvent recordEvents ev w log = (w, log @ [ev])"
  by (simp add: emitEvent_def recordEvents_def)

lemma example_Generate:
  "GenerateTextWithRegistry (Registry (exampleConfig m k)) (ModelName (exampleConfig m k))
     (agentRequest rt steps (exampleConfig m k) msgs) w =
   (case m \<lparr>lm_Model = [], lm_Messages = msgs, lm_Temperature = None, lm_TopP = None,
             lm_MaxTokens = None, lm_Stop = [], lm_JSONSchema = [],
             lm_Tools = toolDefs rt steps (exampleConfig m k)\<rparr> w of
      (Inl err, w') \<Rightarrow> (Inl err, w')
    | (Inr lmRes, w') \<Rightarrow>
        (Inr \<lparr>gt_Text = resp_Text lmRes, gt_StopReason = resp_StopReason lmRes,
              gt_ToolCalls = resp_ToolCalls lmRes\<rparr>, w'))"
  by (simp add: GenerateTextWithRegistry_def GenerateText_def exampleConfig_def
        exampleRegistry_def agentRequest_def)

lemma example_toolResults:
  "toolResults exampleRuntime (exampleConfig m k) recordEvents steps [addCall] w log =
   Some ([addResult], w,
         log @ [\<lparr>event_Type = EventTypeToolStart, event_Step = steps, event_Role = [],
                  event_Content = [], event_Tool = ''add''\<rparr>,
                \<lparr>event_Type = EventTypeToolResult, event_Step = steps, event_Role = [],
                  event_Content = [], event_Tool = ''add''\<rparr>])"
  by (simp add: exampleConfig_def addCall_def addTool_def exampleRuntime_def
        emitEvent_recordEvents addResult_def Itoa_examples)

theorem one_tool_call_then_answer_witness:
  "\<exists>res h' w' e'.
     RunWithEvents exampleRuntime (counted (exampleConfig toolThenAnswer 0)) exampleInitial
       (countedEmit recordEvents) exampleHeap (0, 0, 0) [] = (Inr res, h', (w', 2, 1), e') \<and>
     Steps res = 1 \<and> FinalText res = ''5'' \<and>
     elems h' (Messages res) =
       [\<lparr>Role = ''user'', Content = ''2+3?''\<rparr>, \<lparr>Role = ''tool'', Content = addResult\<rparr>,
        \<lparr>Role = ''assistant'', Content = ''5''\<rparr>]"
proof -
  let ?cfg = "exampleConfig toolThenAnswer 0"
  let ?res1 = "\<lparr>gt_Text = [], gt_StopReason = ''tool_calls'', gt_ToolCalls = [addCall]\<rparr>"
  let ?res2 = "\<lparr>gt_Text = ''5'', gt_StopReason = ''stop'', gt_ToolCalls = []\<rparr>"
  let ?log = "[\<lparr>event_Type = EventTypeToolStart, event_Step = 0, event_Role = [],
                 event_Content = [], event_Tool = ''add''\<rparr>,
               \<lparr>event_Type = EventTypeToolResult, event_Step = 0, event_Role = [],
                 event_Content = [], event_Tool = ''add''\<rparr>]"
  have h2: "MaxSteps ?cfg \<noteq> 1" by (simp add: exampleConfig_def)
  have h3: "GenerateTextWithRegistry (Registry ?cfg) (ModelName ?cfg)
              (agentRequest exampleRuntime 0 ?cfg (elems exampleHeap exampleInitial)) 0 =
            (Inr ?res1, 1)"
    by (simp add: example_Generate toolThenAnswer_def)
  have h4: "gt_ToolCalls ?res1 = [addCall]" by simp
  have h5: "emitAssistant recordEvents 0 ?res1 1 [] = (1, [])"
    by (simp add: emitAssistant_def)
  have h6: "toolResults exampleRuntime ?cfg recordEvents 0 [addCall] 1 [] =
            Some ([addResult], 1, ?log)"
    using example_toolResults[of toolThenAnswer 0 0 1 "[]"] by simp
  have h7: "GenerateTextWithRegistry (Registry ?cfg) (ModelName ?cfg)
              (agentRequest exampleRuntime 1 ?cfg
                 (elems exampleHeap exampleInitial @ assistantMessages ?res1 @
                  [toolMessage addResult])) 1 = (Inr ?res2, 2)"
    by (simp add: example_Generate toolThenAnswer_def)
  have h8: "gt_ToolCalls ?res2 = []" by simp
  from one_tool_call_then_answer[OF example_validate h2 h3 h4 h5 h6 h7 h8]
  show ?thesis
    by (simp add: exampleSlice_elems assistantMessages_def toolMessage_def RoleTool_def
          RoleAssistant_def)
qed

text \<open>
  C2 as stated fails for \<^verbatim>\<open>MaxSteps = 1\<close>: the model asks for one tool at the first
  reasoning call and would answer at the second, the tool is configured and returns 5; the
  run makes one reasoning call and one tool execution and returns the error
  \<^verbatim>\<open>maximum steps (1) exceeded\<close>.
\<close>

theorem max_steps_one_counterexample:
  "(\<forall>req. fst (toolThenAnswer req 0) =
     Inr \<lparr>resp_Text = [], resp_StopReason = ''tool_calls'', resp_ToolCalls = [addCall]\<rparr>) \<and>
   (\<forall>req. fst (toolThenAnswer req 1) =
     Inr \<lparr>resp_Text = ''5'', resp_StopReason = ''stop'', resp_ToolCalls = []\<rparr>) \<and>
   map_of (Tools (exampleConfig toolThenAnswer 1)) (Name addCall) = Some addTool \<and>
   fst (Execute addTool (RawArguments addCall) 1) = Inr (Number 5) \<and>
   MaxSteps (exampleConfig toolThenAnswer 1) = 1 \<and>
   fst (RunWithEvents exampleRuntime (counted (exampleConfig toolThenAnswer 1)) exampleInitial
          (countedEmit recordEvents) exampleHeap (0, 0, 0) []) =
     Inl (UnsupportedFunctionalityError ''agent.maxSteps'' ''maximum steps (1) exceeded'') \<and>
   fst (snd (snd (RunWithEvents exampleRuntime (counted (exampleConfig toolThenAnswer 1))
                    exampleInitial (countedEmit recordEvents) exampleHeap (0, 0, 0) []))) =
     (1, 1, 1)"
proof (intro conjI)
  show "\<forall>req. fst (toolThenAnswer req 0) =
     Inr \<lparr>resp_Text = [], resp_StopReason = ''tool_calls'', resp_ToolCalls = [addCall]\<rparr>"
    by (simp add: toolThenAnswer_def)
  show "\<forall>req. fst (toolThenAnswer req 1) =
     Inr \<lparr>resp_Text = ''5'', resp_StopReason = ''stop'', resp_ToolCalls = []\<rparr>"
    by (simp add: toolThenAnswer_def)
  show "map_of (Tools (exampleConfig toolThenAnswer 1)) (Name addCall) = Some addTool"
    by (simp add: exampleConfig_def addCall_def)
  show "fst (Execute addTool (RawArguments addCall) 1) = Inr (Number 5)"
    by (simp add: addTool_def)
  show "MaxSteps (exampleConfig toolThenAnswer 1) = 1"
    by (simp add: exampleConfig_def)
  show "fst (RunWithEvents exampleRuntime (counted (exampleConfig toolThenAnswer 1)) exampleInitial
          (countedEmit recordEvents) exampleHeap (0, 0, 0) []) =
     Inl (UnsupportedFunctionalityError ''agent.maxSteps'' ''maximum steps (1) exceeded'')"
    by code_simp
  show "fst (snd (snd (RunWithEvents exampleRuntime (counted (exampleConfig toolThenAnswer 1))
                    exampleInitial (countedEmit recordEvents) exampleHeap (0, 0, 0) []))) =
     (1, 1, 1)"
    by code_simp
qed

lemma example_keepsCallingTools:
  "keepsCallingTools exampleRuntime (exampleConfig (alwaysCalls [addCall]) k) recordEvents"
  unfolding keepsCallingTools_def
proof (intro allI)
  fix steps :: int and msgs :: "Message list" and w :: nat and e :: "Event list"
  let ?cfg = "exampleConfig (alwaysCalls [addCall]) k"
  let ?res = "\<lparr>gt_Text = [], gt_StopReason = ''tool_calls'', gt_ToolCalls = [addCall]\<rparr>"
  have "GenerateTextWithRegistry (Registry ?cfg) (ModelName ?cfg)
          (agentRequest exampleRuntime steps ?cfg msgs) w = (Inr ?res, Suc w)"
    by (simp add: example_Generate alwaysCalls_def)
  moreover have "gt_ToolCalls ?res \<noteq> []" by simp
  moreover have "emitAssistant recordEvents steps ?res (Suc w) e = (Suc w, e)"
    by (simp add: emitAssistant_def)
  moreover have "\<exists>ds w2 e2. toolResults exampleRuntime ?cfg recordEvents steps
                   (gt_ToolCalls ?res) (Suc w) e = Some (ds, w2, e2)"
    using example_toolResults[of "alwaysCalls [addCall]" k steps "Suc w" e] by simp
  ultimately show "\<exists>res w1 w1' e1 ds w2 e2.
      GenerateTextWithRegistry (Registry ?cfg) (ModelName ?cfg)
        (agentRequest exampleRuntime steps ?cfg msgs) w = (Inr res, w1) \<and>
      gt_ToolCalls res \<noteq> [] \<and>
      emitAssistant recordEvents steps res w1 e = (w1', e1) \<and>
      toolResults exampleRuntime ?cfg recordEvents steps (gt_ToolCalls res) w1' e1 =
        Some (ds, w2, e2)"
    by blast
qed

theorem max_steps_exceeded_witness:
  "\<exists>h' w' x' e'.
     RunWithEvents exampleRuntime (counted (exampleConfig (alwaysCalls [addCall]) 3))
       exampleInitial (countedEmit recordEvents) exampleHeap (0, 0, 0) [] =
       (Inl (UnsupportedFunctionalityError ''agent.maxSteps'' ''maximum steps (3) exceeded''),
        h', (w', 3, x'), e') \<and>
     3 \<le> x'"
proof -
  have n: "MaxSteps (exampleConfig (alwaysCalls [addCall]) 3) = 3"
    by (simp add: exampleConfig_def)
  from max_steps_exceeded[OF n _ example_validate example_keepsCallingTools,
      of exampleInitial exampleHeap 0 "[]"]
  show ?thesis by (simp add: Itoa_examples)
qed

text \<open>
  C3 as stated fails when a tool returns without error a value that \<^verbatim>\<open>json.Marshal\<close>
  refuses: with \<^verbatim>\<open>MaxSteps = 3\<close> and a model that calls such a tool at every reasoning
  call, the run returns the error of \<^verbatim>\<open>json.Marshal\<close> after one reasoning call and one
  tool execution.
\<close>

theorem unserialisable_result_counterexample:
  "MaxSteps (exampleConfig (alwaysCalls [sqrtCall]) 3) = 3 \<and>
   validate (exampleConfig (alwaysCalls [sqrtCall]) 3) = None \<and>
   (\<forall>req n. fst (alwaysCalls [sqrtCall] req n) =
      Inr \<lparr>resp_Text = [], resp_StopReason = ''tool_calls'', resp_ToolCalls = [sqrtCall]\<rparr>) \<and>
   map_of (Tools (exampleConfig (alwaysCalls [sqrtCall]) 3)) (Name sqrtCall) = Some sqrtTool \<and>
   fst (Execute sqrtTool (RawArguments sqrtCall) 1) = Inr NaN \<and>
   fst (RunWithEvents exampleRuntime (counted (exampleConfig (alwaysCalls [sqrtCall]) 3))
          exampleInitial (countedEmit recordEvents) exampleHeap (0, 0, 0) []) =
     Inl (GoError ''json: unsupported value: NaN'' [] None []) \<and>
   fst (snd (snd (RunWithEvents exampleRuntime (counted (exampleConfig (alwaysCalls [sqrtCall]) 3))
                    exampleInitial (countedEmit recordEvents) exampleHeap (0, 0, 0) []))) =
     (1, 1, 1)"
proof (intro conjI)
  show "MaxSteps (exampleConfig (alwaysCalls [sqrtCall]) 3) = 3"
    by (simp add: exampleConfig_def)
  show "validate (exampleConfig (alwaysCalls [sqrtCall]) 3) = None"
    by (rule example_validate)
  show "\<forall>req n. fst (alwaysCalls [sqrtCall] req n) =
      Inr \<lparr>resp_Text = [], resp_StopReason = ''tool_calls'', resp_ToolCalls = [sqrtCall]\<rparr>"
    by (simp add: alwaysCalls_def)
  show "map_of (Tools (exampleConfig (alwaysCalls [sqrtCall]) 3)) (Name sqrtCall) = Some sqrtTool"
    by (simp add: exampleConfig_def sqrtCall_def)
  show "fst (Execute sqrtTool (RawArguments sqrtCall) 1) = Inr NaN"
    by (simp add: sqrtTool_def)
  show "fst (RunWithEvents exampleRuntime (counted (exampleConfig (alwaysCalls [sqrtCall]) 3))
          exampleInitial (countedEmit recordEvents) exampleHeap (0, 0, 0) []) =
     Inl (GoError ''json: unsupported value: NaN'' [] None [])"
    by code_simp
  show "fst (snd (snd (RunWithEvents exampleRuntime
                    (counted (exampleConfig (alwaysCalls [sqrtCall]) 3))
                    exampleInitial (countedEmit recordEvents) exampleHeap (0, 0, 0) []))) =
     (1, 1, 1)"
    by code_simp
qed

theorem unregistered_tool_aborts_the_run_witness:
  "(\<exists>err h' w' e'.
      agentLoop exampleRuntime (exampleConfig (alwaysCalls [addCall, lookupCall]) 0)
        recordEvents 8 0 exampleInitial exampleHeap 0 [] = (Inl err, h', w', e'))
   \<and>
   (\<exists>m' h' w' e'.
      runToolCalls exampleRuntime (exampleConfig (alwaysCalls [addCall, lookupCall]) 0)
        recordEvents 0 [addCall, lookupCall] exampleInitial exampleHeap 1 [] =
        (Some (noToolError exampleRuntime lookupCall), m', h', w', e') \<and>
      elems h' m' = [\<lparr>Role = ''user'', Content = ''2+3?''\<rparr>, toolMessage addResult] \<and>
      agentLoop exampleRuntime (exampleConfig (alwaysCalls [addCall, lookupCall]) 0)
        recordEvents 8 0 exampleInitial exampleHeap 0 [] =
        (Inl (noToolError exampleRuntime lookupCall), h', w', e'))"
proof -
  let ?cfg = "exampleConfig (alwaysCalls [addCall, lookupCall]) 0"
  let ?res = "\<lparr>gt_Text = [], gt_StopReason = ''tool_calls'',
               gt_ToolCalls = [addCall, lookupCall]\<rparr>"
  let ?log = "[\<lparr>event_Type = EventTypeToolStart, event_Step = 0, event_Role = [],
                 event_Content = [], event_Tool = ''add''\<rparr>,
               \<lparr>event_Type = EventTypeToolResult, event_Step = 0, event_Role = [],
                 event_Content = [], event_Tool = ''add''\<rparr>]"
  have gen: "GenerateTextWithRegistry (Registry ?cfg) (ModelName ?cfg)
               (agentRequest exampleRuntime 0 ?cfg (elems exampleHeap exampleInitial)) 0 =
             (Inr ?res, 1)"
    by (simp add: example_Generate alwaysCalls_def)
  have un: "map_of (Tools ?cfg) (Name lookupCall) = None"
    by (simp add: exampleConfig_def lookupCall_def)
  have some: "\<exists>tc \<in> set (gt_ToolCalls ?res). map_of (Tools ?cfg) (Name tc) = None"
    using un by simp
  have batch: "gt_ToolCalls ?res = [addCall] @ lookupCall # []" by simp
  have aa: "appendAssistant exampleRuntime recordEvents 0 ?res exampleInitial exampleHeap 1 [] =
            (exampleHeap, exampleInitial, 1, [])"
    by (simp add: appendAssistant_def)
  have tr: "toolResults exampleRuntime ?cfg recordEvents 0 [addCall] 1 [] =
            Some ([addResult], 1, ?log)"
    using example_toolResults[of "alwaysCalls [addCall, lookupCall]" 0 0 1 "[]"] by simp
  have lt: "(0::int) < 8" by simp
  note inst = unregistered_tool_aborts_the_run
    [of 0 8 ?cfg exampleRuntime exampleHeap exampleInitial 0 ?res 1 recordEvents "[]"
        "[addCall]" lookupCall "[]" exampleHeap exampleInitial 1 "[]" "[addResult]" 1 ?log]
  from inst[THEN conjunct1] lt gen some
  have first: "\<exists>err h' w' e'.
      agentLoop exampleRuntime ?cfg recordEvents 8 0 exampleInitial exampleHeap 0 [] =
        (Inl err, h', w', e')"
    by blast
  from inst[THEN conjunct2] lt exampleSlice_valid gen batch un aa tr
  have second: "\<exists>m' h' w' e'.
      runToolCalls exampleRuntime ?cfg recordEvents 0 (gt_ToolCalls ?res) exampleInitial
        exampleHeap 1 [] =
        (Some (noToolError exampleRuntime lookupCall), m', h', w', e') \<and>
      elems h' m' = elems exampleHeap exampleInitial @ map toolMessage [addResult] \<and>
      length [addResult] = length [addCall] \<and>
      agentLoop exampleRuntime ?cfg recordEvents 8 0 exampleInitial exampleHeap 0 [] =
        (Inl (noToolError exampleRuntime lookupCall), h', w', e')"
    by blast
  from first second show ?thesis
    by (simp add: exampleSlice_elems)
qed

text \<open>
  C6 as stated fails for the history: with the batch \<^verbatim>\<open>add\<close>, \<^verbatim>\<open>lookup\<close>, of which only
  \<^verbatim>\<open>add\<close> is configured, the run returns the error for \<^verbatim>\<open>lookup\<close> after it has executed
  \<^verbatim>\<open>add\<close>, reported its start and its result, and appended its tool message to the
  history.
\<close>

theorem partial_batch_counterexample:
  "fst (RunWithEvents exampleRuntime
          (counted (exampleConfig (alwaysCalls [addCall, lookupCall]) 0))
          exampleInitial (countedEmit recordEvents) exampleHeap (0, 0, 0) []) =
     Inl (UnsupportedFunctionalityError ''agent.tool''
            (''no tool registered with name '' @ quoted ''lookup'')) \<and>
   fst (snd (snd (RunWithEvents exampleRuntime
                    (counted (exampleConfig (alwaysCalls [addCall, lookupCall]) 0))
                    exampleInitial (countedEmit recordEvents) exampleHeap (0, 0, 0) []))) =
     (1, 1, 1) \<and>
   map event_Type
     (snd (snd (snd (RunWithEvents exampleRuntime
                       (counted (exampleConfig (alwaysCalls [addCall, lookupCall]) 0))
                       exampleInitial (countedEmit recordEvents) exampleHeap (0, 0, 0) [])))) =
     [EventTypeToolStart, EventTypeToolResult, EventTypeError] \<and>
   elems exampleHeap exampleInitial = [\<lparr>Role = ''user'', Content = ''2+3?''\<rparr>] \<and>
   elems
     (fst (snd (snd (runToolCalls exampleRuntime
                       (exampleConfig (alwaysCalls [addCall, lookupCall]) 0)
                       recordEvents 0 [addCall, lookupCall] exampleInitial exampleHeap 1 []))))
     (fst (snd (runToolCalls exampleRuntime
                  (exampleConfig (alwaysCalls [addCall, lookupCall]) 0)
                  recordEvents 0 [addCall, lookupCall] exampleInitial exampleHeap 1 []))) =
     [\<lparr>Role = ''user'', Content = ''2+3?''\<rparr>, \<lparr>Role = ''tool'', Content = addResult\<rparr>]"
  by (intro conjI; code_simp)

theorem events_do_not_change_the_outcome_witness:
  "quiet recordEvents \<and>
   (case RunWithEvents exampleRuntime (exampleConfig toolThenAnswer 0) exampleInitial
          recordEvents exampleHeap 0 [] of (r, h', w', e') \<Rightarrow> (r, h', w')) =
   Run exampleRuntime (exampleConfig toolThenAnswer 0) exampleInitial exampleHeap 0"
  using events_do_not_change_the_outcome[OF quiet_recordEvents,
      of exampleRuntime "exampleConfig toolThenAnswer 0" exampleInitial exampleHeap 0 "[]"]
  by (simp add: quiet_recordEvents)

text \<open>
  C9 as stated fails for an emitter that writes to state the model reads: with the emitter
  that takes the model back to turn 0 at each event, the model asks for the tool again at
  the second reasoning call and the run ends with \<^verbatim>\<open>maximum steps (2) exceeded\<close>, where
  \<^verbatim>\<open>Run\<close> returns the answer.
\<close>

theorem emitter_rewinds_model_counterexample:
  "fst (RunWithEvents exampleRuntime (exampleConfig toolThenAnswer 2) exampleInitial
          rewindModel exampleHeap 0 []) =
     Inl (UnsupportedFunctionalityError ''agent.maxSteps'' ''maximum steps (2) exceeded'') \<and>
   fst (Run exampleRuntime (exampleConfig toolThenAnswer 2) exampleInitial exampleHeap 0) =
     Inr \<lparr>Messages = \<lparr>arr = Some 2, off = 0, len = 3, cap = 6\<rparr>, FinalText = ''5'',
          Steps = 1\<rparr>"
  by (intro conjI; code_simp)

theorem run_does_not_write_to_the_callers_slice_witness:
  "prefix exampleHeap
     (fst (snd (RunWithEvents exampleRuntime (exampleConfig toolThenAnswer 0) exampleInitial
                  recordEvents exampleHeap 0 []))) \<and>
   elems (fst (snd (RunWithEvents exampleRuntime (exampleConfig toolThenAnswer 0) exampleInitial
                      recordEvents exampleHeap 0 []))) exampleInitial =
     [\<lparr>Role = ''user'', Content = ''2+3?''\<rparr>] \<and>
   (\<exists>added.
      elems (fst (snd (RunWithEvents exampleRuntime (exampleConfig toolThenAnswer 0)
                         exampleInitial recordEvents exampleHeap 0 [])))
        \<lparr>arr = Some 2, off = 0, len = 3, cap = 6\<rparr> =
        [\<lparr>Role = ''user'', Content = ''2+3?''\<rparr>] @ added \<and>
      list_all (\<lambda>m. Role m = RoleAssistant \<or> Role m = RoleTool) added)"
proof -
  let ?R = "RunWithEvents exampleRuntime (exampleConfig toolThenAnswer 0) exampleInitial
              recordEvents exampleHeap 0 []"
  have run: "?R = (fst ?R, fst (snd ?R), fst (snd (snd ?R)), snd (snd (snd ?R)))" by simp
  have res: "fst ?R = Inr \<lparr>Messages = \<lparr>arr = Some 2, off = 0, len = 3, cap = 6\<rparr>,
                         FinalText = ''5'', Steps = 1\<rparr>"
    by code_simp
  from run_does_not_write_to_the_callers_slice[OF run] res exampleSlice_valid exampleSlice_elems
  show ?thesis by (simp add: list_all_iff)
qed

end
